theory Spec2Isabelle
  imports Main "HOL-Library.Word"
begin

section \<open>Go library functions the program calls\<close>

text \<open>
  Go strings and byte slices are byte sequences: \<open>string\<close> (a list of 8-bit characters).
  The functions below are the ones of packages \<^verbatim>\<open>strings\<close> and \<^verbatim>\<open>strconv\<close> that the
  program calls, with Go's results on every byte string unless a restriction is stated.
\<close>

definition HasPrefix :: "string \<Rightarrow> string \<Rightarrow> bool" where
  "HasPrefix s p = (take (length p) s = p)"

definition HasSuffix :: "string \<Rightarrow> string \<Rightarrow> bool" where
  "HasSuffix s p = (length p \<le> length s \<and> drop (length s - length p) s = p)"

definition TrimPrefix :: "string \<Rightarrow> string \<Rightarrow> string" where
  "TrimPrefix s p = (if HasPrefix s p then drop (length p) s else s)"

definition TrimSuffix :: "string \<Rightarrow> string \<Rightarrow> string" where
  "TrimSuffix s p = (if HasSuffix s p then take (length s - length p) s else s)"

fun Contains :: "string \<Rightarrow> string \<Rightarrow> bool" where
  "Contains [] sub = (sub = [])"
| "Contains (c # cs) sub = (HasPrefix (c # cs) sub \<or> Contains cs sub)"

text \<open>
  \<^verbatim>\<open>strings.Split(s, sep)\<close> for a separator of one byte, which is what every call site
  passes (\<^verbatim>\<open>"_"\<close>, \<^verbatim>\<open>"-"\<close>, \<^verbatim>\<open>"\n"\<close>). The result is never empty: splitting the empty
  string gives one empty part.
\<close>

fun Split :: "string \<Rightarrow> char \<Rightarrow> string list" where
  "Split [] sep = [[]]"
| "Split (c # cs) sep =
     (if c = sep then [] # Split cs sep
      else (case Split cs sep of [] \<Rightarrow> [[c]] | p # ps \<Rightarrow> (c # p) # ps))"

text \<open>
  \<^verbatim>\<open>strings.TrimSpace\<close> removes the leading and trailing runes that Unicode calls white
  space. \<open>space_width s\<close> is the number of bytes of such a rune at the head of \<open>s\<close> (0
  when there is none), \<open>space_width_last\<close> the same at the end, read off the reversed
  string (its head \<open>z\<close> is the last byte): the six ASCII ones and the UTF-8 encodings
  of U+0085, U+00A0, U+1680, U+2000..U+200A, U+2028, U+2029, U+202F, U+205F and U+3000.
\<close>

definition asciiSpace :: "char \<Rightarrow> bool" where
  "asciiSpace c = (c = CHR 0x09 \<or> c = CHR 0x0A \<or> c = CHR 0x0B \<or> c = CHR 0x0C
                   \<or> c = CHR 0x0D \<or> c = CHR 0x20)"

definition space3 :: "char \<Rightarrow> char \<Rightarrow> char \<Rightarrow> bool" where
  "space3 a b c =
     ((a = CHR 0xE1 \<and> b = CHR 0x9A \<and> c = CHR 0x80)
      \<or> (a = CHR 0xE2 \<and> b = CHR 0x80
          \<and> (((128::nat) \<le> of_char c \<and> of_char c \<le> (138::nat)) \<or> c = CHR 0xA8 \<or> c = CHR 0xA9
               \<or> c = CHR 0xAF))
      \<or> (a = CHR 0xE2 \<and> b = CHR 0x81 \<and> c = CHR 0x9F)
      \<or> (a = CHR 0xE3 \<and> b = CHR 0x80 \<and> c = CHR 0x80))"

definition space2 :: "char \<Rightarrow> char \<Rightarrow> bool" where
  "space2 a b = (a = CHR 0xC2 \<and> (b = CHR 0x85 \<or> b = CHR 0xA0))"

fun space_width :: "string \<Rightarrow> nat" where
  "space_width [] = 0"
| "space_width [a] = (if asciiSpace a then 1 else 0)"
| "space_width [a, b] = (if asciiSpace a then 1 else if space2 a b then 2 else 0)"
| "space_width (a # b # c # cs) =
     (if asciiSpace a then 1 else if space2 a b then 2 else if space3 a b c then 3 else 0)"

fun space_width_last :: "string \<Rightarrow> nat" where
  "space_width_last [] = 0"
| "space_width_last [z] = (if asciiSpace z then 1 else 0)"
| "space_width_last [z, y] = (if asciiSpace z then 1 else if space2 y z then 2 else 0)"
| "space_width_last (z # y # x # r) =
     (if asciiSpace z then 1 else if space2 y z then 2 else if space3 x y z then 3 else 0)"

lemma space_width_le: "space_width s \<le> length s"
  by (induction s rule: space_width.induct) auto

lemma space_width_last_le: "space_width_last s \<le> length s"
  by (induction s rule: space_width_last.induct) auto

function TrimLeft :: "string \<Rightarrow> string" where
  "TrimLeft s = (if space_width s = 0 then s else TrimLeft (drop (space_width s) s))"
  by pat_completeness auto
termination
proof (relation "measure length")
  show "wf (measure length)" by simp
next
  fix s :: string
  assume "space_width s \<noteq> 0"
  moreover have "space_width s \<le> length s" by (rule space_width_le)
  ultimately show "(drop (space_width s) s, s) \<in> measure length" by simp
qed

declare TrimLeft.simps [simp del]

text \<open>\<open>TrimRightRev\<close> works on the reversed string, so that the end is its head.\<close>

function TrimRightRev :: "string \<Rightarrow> string" where
  "TrimRightRev r =
     (if space_width_last r = 0 then r else TrimRightRev (drop (space_width_last r) r))"
  by pat_completeness auto
termination
proof (relation "measure length")
  show "wf (measure length)" by simp
next
  fix r :: string
  assume "space_width_last r \<noteq> 0"
  moreover have "space_width_last r \<le> length r" by (rule space_width_last_le)
  ultimately show "(drop (space_width_last r) r, r) \<in> measure length" by simp
qed

declare TrimRightRev.simps [simp del]

definition TrimSpace :: "string \<Rightarrow> string" where
  "TrimSpace s = rev (TrimRightRev (rev (TrimLeft s)))"

text \<open>
  \<^verbatim>\<open>strings.ToLower\<close> on the ASCII letters. Go also lowers the upper-case letters beyond
  ASCII; the model leaves every byte from 128 on as it is.
\<close>

definition lower_char :: "char \<Rightarrow> char" where
  "lower_char c = (if 65 \<le> (of_char c :: nat) \<and> (of_char c :: nat) \<le> 90
                   then char_of (of_char c + (32::nat)) else c)"

definition ToLower :: "string \<Rightarrow> string" where
  "ToLower s = map lower_char s"

text \<open>
  \<^verbatim>\<open>strconv.ParseInt(s, 10, 64)\<close>: an optional sign, then one or more decimal digits, and
  the value must fit \<^verbatim>\<open>int64\<close>; \<open>None\<close> is the error. \<^verbatim>\<open>strconv.Atoi\<close> is the same
  function on a 64-bit platform.
\<close>

definition is_digit :: "char \<Rightarrow> bool" where
  "is_digit c = (48 \<le> (of_char c :: nat) \<and> (of_char c :: nat) \<le> 57)"

definition digit_val :: "char \<Rightarrow> int" where
  "digit_val c = int (of_char c) - 48"

definition digits_val :: "string \<Rightarrow> int" where
  "digits_val ds = foldl (\<lambda>acc c. 10 * acc + digit_val c) 0 ds"

definition in_int64 :: "int \<Rightarrow> bool" where
  "in_int64 v = (- (2 ^ 63) \<le> v \<and> v < 2 ^ 63)"

definition parse_digits :: "bool \<Rightarrow> string \<Rightarrow> int option" where
  "parse_digits neg ds =
     (if ds = [] \<or> \<not> list_all is_digit ds then None
      else let v = (if neg then - digits_val ds else digits_val ds)
           in if in_int64 v then Some v else None)"

fun ParseInt :: "string \<Rightarrow> int option" where
  "ParseInt [] = None"
| "ParseInt (c # cs) =
     (if c = CHR ''+'' then parse_digits False cs
      else if c = CHR ''-'' then parse_digits True cs
      else parse_digits False (c # cs))"

definition Atoi :: "string \<Rightarrow> int option" where
  "Atoi s = ParseInt s"

text \<open>The decimal text that \<^verbatim>\<open>fmt.Sprintf("%d", n)\<close> prints.\<close>

function nat_dec :: "nat \<Rightarrow> string" where
  "nat_dec n = (if n < 10 then [char_of (48 + n)]
                else nat_dec (n div 10) @ [char_of (48 + n mod 10)])"
  by pat_completeness auto
termination
  by (relation "measure id") auto

declare nat_dec.simps [simp del]

definition Itoa :: "int \<Rightarrow> string" where
  "Itoa i = (if i < 0 then CHR ''-'' # nat_dec (nat (- i)) else nat_dec (nat i))"

subsection \<open>\<^verbatim>\<open>path/filepath.Match\<close>\<close>

text \<open>
  The glob matcher behind \<^verbatim>\<open>GenericFormat.DetectFromFilename\<close>, after the algorithm of
  Go's \<^verbatim>\<open>path/filepath\<close> on a Unix system (separator \<^verbatim>\<open>/\<close>, \<^verbatim>\<open>\\\<close> escapes): the pattern
  is cut into chunks at the stars outside brackets, and each chunk is matched at the
  leftmost place the preceding star allows. A chunk is read into its terms first; that is
  where \<^verbatim>\<open>ErrBadPattern\<close> (\<open>None\<close>) arises, whatever the name is. The model compares
  bytes, so it is Go's function on ASCII patterns and names (Go reads a rune where the
  model reads a byte).
\<close>

datatype glob_term = GAny | GLit char | GClass bool "(char \<times> char) list"

fun getEsc :: "string \<Rightarrow> (char \<times> string) option" where
  "getEsc [] = None"
| "getEsc (c # cs) =
     (if c = CHR ''-'' \<or> c = CHR '']'' then None
      else if c = CHR 0x5C then
        (case cs of [] \<Rightarrow> None | d # ds \<Rightarrow> if ds = [] then None else Some (d, ds))
      else if cs = [] then None else Some (c, cs))"

lemma getEsc_shorter: "getEsc chunk = Some (r, rest) \<Longrightarrow> length rest < length chunk"
  by (cases chunk) (auto split: if_splits list.splits)

lemma getEsc_nonempty: "getEsc chunk = Some (r, rest) \<Longrightarrow> rest \<noteq> []"
  by (cases chunk) (auto split: if_splits list.splits)

text \<open>
  The ranges of a character class, up to the closing bracket: \<open>some\<close> says that one
  range has been read (a class is not empty, so a leading \<^verbatim>\<open>]\<close> is an error).
\<close>

function class_ranges ::
  "string \<Rightarrow> (char \<times> char) list \<Rightarrow> bool \<Rightarrow> ((char \<times> char) list \<times> string) option" where
  "class_ranges chunk acc some =
     (if some \<and> chunk \<noteq> [] \<and> hd chunk = CHR '']'' then Some (rev acc, tl chunk)
      else (case getEsc chunk of
              None \<Rightarrow> None
            | Some (lo, c1) \<Rightarrow>
                (if hd c1 = CHR ''-'' then
                   (case getEsc (tl c1) of
                      None \<Rightarrow> None
                    | Some (hi, c2) \<Rightarrow> class_ranges c2 ((lo, hi) # acc) True)
                 else class_ranges c1 ((lo, lo) # acc) True)))"
  by pat_completeness auto
termination
proof (relation "measure (\<lambda>(chunk, acc, some). length chunk)")
  show "wf (measure (\<lambda>(chunk, acc, some). length chunk))" by simp
next
  fix chunk :: string and acc :: "(char \<times> char) list" and some x2 lo c1 x2a hi c2
  assume a: "getEsc chunk = Some x2" "(lo, c1) = x2"
    and b: "getEsc (tl c1) = Some x2a" "(hi, c2) = x2a"
  from a have "length c1 < length chunk" by (auto dest: getEsc_shorter)
  moreover from b have "length c2 < length (tl c1)" by (auto dest: getEsc_shorter)
  ultimately have "length c2 < length chunk" by simp
  then show "((c2, (lo, hi) # acc, True), chunk, acc, some)
               \<in> measure (\<lambda>(chunk, acc, some). length chunk)" by simp
next
  fix chunk :: string and acc :: "(char \<times> char) list" and some x2 lo c1
  assume a: "getEsc chunk = Some x2" "(lo, c1) = x2"
  then have "length c1 < length chunk" by (auto dest: getEsc_shorter)
  then show "((c1, (lo, lo) # acc, True), chunk, acc, some)
               \<in> measure (\<lambda>(chunk, acc, some). length chunk)" by simp
qed

declare class_ranges.simps [simp del]

lemma class_ranges_shorter:
  "class_ranges chunk acc some = Some (rs, rest) \<Longrightarrow> length rest \<le> length chunk"
proof (induction chunk acc some rule: class_ranges.induct)
  case (1 chunk acc some)
  show ?case
  proof (cases "some \<and> chunk \<noteq> [] \<and> hd chunk = CHR '']''")
    case True
    with "1.prems" show ?thesis by (auto simp: class_ranges.simps [of chunk])
  next
    case False
    with "1.prems" obtain lo c1 where g: "getEsc chunk = Some (lo, c1)"
      by (auto simp: class_ranges.simps [of chunk] split: option.splits)
    have l1: "length c1 < length chunk" using g by (rule getEsc_shorter)
    show ?thesis
    proof (cases "hd c1 = CHR ''-''")
      case dash: True
      with "1.prems" False g obtain hi c2 where h: "getEsc (tl c1) = Some (hi, c2)"
        by (auto simp: class_ranges.simps [of chunk] split: option.splits)
      have l2: "length c2 < length (tl c1)" using h by (rule getEsc_shorter)
      from "1.prems" False g dash h
      have "class_ranges c2 ((lo, hi) # acc) True = Some (rs, rest)"
        by (simp add: class_ranges.simps [of chunk])
      with "1.IH"(1) [OF False g refl dash h refl]
      have "length rest \<le> length c2" by simp
      with l1 l2 show ?thesis by simp
    next
      case nodash: False
      from "1.prems" False g nodash
      have "class_ranges c1 ((lo, lo) # acc) True = Some (rs, rest)"
        by (simp add: class_ranges.simps [of chunk])
      with "1.IH"(2) [OF False g refl nodash]
      have "length rest \<le> length c1" by simp
      with l1 show ?thesis by simp
    qed
  qed
qed

text \<open>The terms of one chunk (a chunk holds no star outside brackets).\<close>

function parse_chunk :: "string \<Rightarrow> glob_term list option" where
  "parse_chunk [] = Some []"
| "parse_chunk (c # cs) =
     (if c = CHR ''['' then
        (let neg = (cs \<noteq> [] \<and> hd cs = CHR ''^'');
             body = (if neg then tl cs else cs)
         in case class_ranges body [] False of
              None \<Rightarrow> None
            | Some (rs, rest) \<Rightarrow> map_option (Cons (GClass neg rs)) (parse_chunk rest))
      else if c = CHR ''?'' then map_option (Cons GAny) (parse_chunk cs)
      else if c = CHR 0x5C then
        (case cs of [] \<Rightarrow> None | d # ds \<Rightarrow> map_option (Cons (GLit d)) (parse_chunk ds))
      else map_option (Cons (GLit c)) (parse_chunk cs))"
  by pat_completeness auto
termination
proof (relation "measure length")
  show "wf (measure length)" by simp
next
  fix c :: char and cs :: string and neg body x2 rs rest
  assume "neg = (cs \<noteq> [] \<and> hd cs = CHR ''^'')" "body = (if neg then tl cs else cs)"
    "class_ranges body [] False = Some x2" "(rs, rest) = x2"
  then have "length rest \<le> length body" "length body \<le> length cs"
    by (auto dest: class_ranges_shorter)
  then show "(rest, c # cs) \<in> measure length" by simp
qed auto

declare parse_chunk.simps [simp del]

definition in_class :: "(char \<times> char) list \<Rightarrow> char \<Rightarrow> bool" where
  "in_class rs r =
     list_ex (\<lambda>(lo, hi). (of_char lo :: nat) \<le> of_char r \<and> (of_char r :: nat) \<le> of_char hi) rs"

text \<open>
  Matching the terms against the head of the name: \<open>Some rest\<close> when they all match.
  \<^verbatim>\<open>?\<close> does not match the separator; a class and a literal may.
\<close>

fun match_terms :: "glob_term list \<Rightarrow> string \<Rightarrow> string option" where
  "match_terms [] s = Some s"
| "match_terms (t # ts) [] = None"
| "match_terms (GAny # ts) (x # xs) = (if x = CHR ''/'' then None else match_terms ts xs)"
| "match_terms (GLit c # ts) (x # xs) = (if c = x then match_terms ts xs else None)"
| "match_terms (GClass neg rs # ts) (x # xs) =
     (if in_class rs x = neg then None else match_terms ts xs)"

text \<open>
  \<^verbatim>\<open>scanChunk\<close>: the leading stars, the chunk up to the next star outside brackets, the
  rest. \<open>scan_to_star\<close> is the index at which the scan loop stops.
\<close>

fun scan_to_star :: "bool \<Rightarrow> string \<Rightarrow> nat" where
  "scan_to_star inrange [] = 0"
| "scan_to_star inrange (c # cs) =
     (if c = CHR 0x5C then
        (case cs of [] \<Rightarrow> 1 | d # ds \<Rightarrow> 2 + scan_to_star inrange ds)
      else if c = CHR ''['' then 1 + scan_to_star True cs
      else if c = CHR '']'' then 1 + scan_to_star False cs
      else if c = CHR ''*'' \<and> \<not> inrange then 0
      else 1 + scan_to_star inrange cs)"

definition scanChunk :: "string \<Rightarrow> bool \<times> string \<times> string" where
  "scanChunk pattern =
     (let p = dropWhile (\<lambda>c. c = CHR ''*'') pattern;
          i = scan_to_star False p
      in (pattern \<noteq> [] \<and> hd pattern = CHR ''*'', take i p, drop i p))"

lemma scan_to_star_progress:
  assumes "p \<noteq> []" and "hd p \<noteq> CHR ''*''"
  shows "0 < scan_to_star False p"
proof -
  from assms obtain c cs where p: "p = c # cs" and c: "c \<noteq> CHR ''*''"
    by (cases p) auto
  show ?thesis
    unfolding p using c by (cases cs) simp_all
qed

lemma scanChunk_shorter:
  assumes "scanChunk pattern = (star, chunk, rest)" and "pattern \<noteq> []"
  shows "length rest < length pattern"
proof -
  let ?p = "dropWhile (\<lambda>c. c = CHR ''*'') pattern"
  from assms(1) have r: "rest = drop (scan_to_star False ?p) ?p"
    by (simp add: scanChunk_def Let_def)
  show ?thesis
  proof (cases "hd pattern = CHR ''*''")
    case True
    with assms(2) obtain cs where "pattern = CHR ''*'' # cs"
      by (cases pattern) auto
    then have "length ?p \<le> length cs" and "length pattern = Suc (length cs)"
      by (simp_all add: length_dropWhile_le)
    then show ?thesis using r by simp
  next
    case False
    with assms(2) have d: "?p = pattern"
      by (cases pattern) auto
    from assms(2) False have "0 < scan_to_star False pattern"
      by (rule scan_to_star_progress)
    with r d assms(2) show ?thesis by simp
  qed
qed

text \<open>
  After a star the chunk is tried at each later place of the name, up to the first
  separator; the last chunk must also use up the name.
\<close>

fun skip_search :: "glob_term list \<Rightarrow> bool \<Rightarrow> string \<Rightarrow> string option" where
  "skip_search ts lastChunk [] = None"
| "skip_search ts lastChunk (x # xs) =
     (if x = CHR ''/'' then None
      else (case match_terms ts xs of
              Some t \<Rightarrow> if lastChunk \<and> t \<noteq> [] then skip_search ts lastChunk xs else Some t
            | None \<Rightarrow> skip_search ts lastChunk xs))"

text \<open>The check of the unmatched part of the pattern, made before answering "no match".\<close>

function rest_wellformed :: "string \<Rightarrow> bool" where
  "rest_wellformed pattern =
     (if pattern = [] then True
      else (case scanChunk pattern of
              (star, chunk, rest) \<Rightarrow> parse_chunk chunk \<noteq> None \<and> rest_wellformed rest))"
  by pat_completeness auto
termination
  by (relation "measure length") (auto dest: scanChunk_shorter [OF sym])

declare rest_wellformed.simps [simp del]

function Match :: "string \<Rightarrow> string \<Rightarrow> bool option" where
  "Match pattern name =
     (if pattern = [] then Some (name = [])
      else (case scanChunk pattern of
        (star, chunk, rest) \<Rightarrow>
          if star \<and> chunk = [] then Some (CHR ''/'' \<notin> set name)
          else (case parse_chunk chunk of
                  None \<Rightarrow> None
                | Some ts \<Rightarrow>
                   (case match_terms ts name of
                      Some t \<Rightarrow>
                        if t = [] \<or> rest \<noteq> [] then Match rest t
                        else (case (if star then skip_search ts (rest = []) name else None) of
                                Some t' \<Rightarrow> Match rest t'
                              | None \<Rightarrow> if rest_wellformed rest then Some False else None)
                    | None \<Rightarrow>
                        (case (if star then skip_search ts (rest = []) name else None) of
                           Some t' \<Rightarrow> Match rest t'
                         | None \<Rightarrow> if rest_wellformed rest then Some False else None)))))"
  by pat_completeness auto
termination
  by (relation "measure (\<lambda>(pattern, name). length pattern)")
     (auto dest: scanChunk_shorter [OF sym])

declare Match.simps [simp del]

subsection \<open>Calendar dates of package \<^verbatim>\<open>time\<close>\<close>

text \<open>
  \<^verbatim>\<open>time.Date(y, m, d, hh, mm, ss, 0, time.UTC).Unix()\<close> and the UTC date of
  \<^verbatim>\<open>time.Unix(t, 0)\<close>, in the proleptic Gregorian calendar. Epoch seconds are \<open>int\<close>
  here: the program compares them and takes dates of them, it never adds two of them. Go
  carries a month out of 1..12 into the year and counts days, hours and minutes out of
  range onwards, which the arithmetic below does as well; the model is Go's function as long
  as Go's own 64-bit arithmetic does not overflow.
\<close>

definition days_from_civil :: "int \<Rightarrow> int \<Rightarrow> int \<Rightarrow> int" where
  "days_from_civil y m d =
     (let y1 = (if m \<le> 2 then y - 1 else y);
          era = y1 div 400;
          yoe = y1 - era * 400;
          mp = (if m > 2 then m - 3 else m + 9);
          doy = (153 * mp + 2) div 5 + d - 1;
          doe = yoe * 365 + yoe div 4 - yoe div 100 + doy
      in era * 146097 + doe - 719468)"

definition civil_from_days :: "int \<Rightarrow> int \<times> int \<times> int" where
  "civil_from_days z0 =
     (let z = z0 + 719468;
          era = z div 146097;
          doe = z - era * 146097;
          yoe = (doe - doe div 1460 + doe div 36524 - doe div 146096) div 365;
          doy = doe - (365 * yoe + yoe div 4 - yoe div 100);
          mp = (5 * doy + 2) div 153;
          d = doy - (153 * mp + 2) div 5 + 1;
          m = (if mp < 10 then mp + 3 else mp - 9);
          y = yoe + era * 400
      in (if m \<le> 2 then y + 1 else y, m, d))"

definition Date_Unix :: "int \<Rightarrow> int \<Rightarrow> int \<Rightarrow> int \<Rightarrow> int \<Rightarrow> int \<Rightarrow> int" where
  "Date_Unix year month day hour minute sec =
     (let m0 = month - 1;
          y = year + m0 div 12;
          m = m0 mod 12 + 1
      in (days_from_civil y m 1 + (day - 1)) * 86400 + hour * 3600 + minute * 60 + sec)"

text \<open>Go's integer division truncates towards zero.\<close>

definition quot :: "int \<Rightarrow> int \<Rightarrow> int" where
  "quot a b = sgn a * sgn b * (\<bar>a\<bar> div \<bar>b\<bar>)"

subsection \<open>Library calls taken as parameters\<close>

text \<open>
  Three library functions are arguments of the model rather than definitions of it: a
  JSON decoder, the regular-expression engine and the layout parser of \<^verbatim>\<open>time\<close>.
  \<^item> \<open>json_ok b\<close>: \<^verbatim>\<open>json.Unmarshal(b, &v)\<close> returns no error (decoding a number involves
    floating point);
  \<^item> \<open>regexp_submatch re s\<close>: \<open>None\<close> when \<^verbatim>\<open>regexp.Compile(re)\<close> fails, otherwise the
    result of \<^verbatim>\<open>FindStringSubmatch(s)\<close>, the empty list when there is no match;
  \<^item> \<open>time_parse layout v\<close>: the epoch seconds of \<^verbatim>\<open>time.Parse(layout, v)\<close>, \<open>None\<close> on error.
\<close>

record golib =
  json_ok :: "string \<Rightarrow> bool"
  regexp_submatch :: "string \<Rightarrow> string \<Rightarrow> string list option"
  time_parse :: "string \<Rightarrow> string \<Rightarrow> int option"

section \<open>Format descriptors (internal/formats)\<close>

text \<open>The errors the program returns, one constructor for each place that makes one.\<close>

datatype error =
    ErrInvalidFilename
  | ErrParseTimestamp
  | ErrInvalidYear | ErrInvalidMonth | ErrInvalidDay | ErrInvalidHour | ErrInvalidMinute
  | ErrInvalidRegex
  | ErrRegexNoMatch
  | ErrTimeLayout
  | ErrInvalidJSON
  | ErrUnknownFormat
  | ErrNoRegistry
  | ErrNoFormatDetected
  | ErrListObjects
  | ErrListPrefix string error
  | ErrDownload
  | ErrDecompress
  | ErrProcessLine nat error
  | ErrScan
  | ErrMarshal
  | ErrWriteFile
  | ErrRename
  | ErrRedisSet
  | ErrCreateRequest
  | ErrSendRequest
  | ErrHTTPStatus int string

record FormatConfig =
  Name :: string
  FilenamePattern :: string
  TimestampRegex :: string
  TimestampFormat :: string
  ContentType :: string
  SkipHeaderLines :: int
  FieldSeparator :: string

subsection \<open>zscaler.go\<close>

definition ZscalerFormat_ParseTimestamp :: "string \<Rightarrow> error + int" where
  "ZscalerFormat_ParseTimestamp filename =
     (case Split (TrimSuffix filename ''.gz'') (CHR ''_'') of
        [] \<Rightarrow> Inl ErrInvalidFilename
      | p # ps \<Rightarrow> (case ParseInt p of None \<Rightarrow> Inl ErrParseTimestamp | Some t \<Rightarrow> Inr t))"

text \<open>
  \<^verbatim>\<open>ProcessContent\<close> returns \<^verbatim>\<open>(nil, nil)\<close> for a line to skip, \<^verbatim>\<open>(line, nil)\<close> for a line to
  forward and \<^verbatim>\<open>(nil, err)\<close> on error: \<open>Inr None\<close>, \<open>Inr (Some line)\<close> and \<open>Inl err\<close>.
\<close>

definition braced :: "string \<Rightarrow> bool" where
  "braced t = (HasPrefix t ''{'' \<and> HasSuffix t ''}'')"

definition ZscalerFormat_ProcessContent ::
  "golib \<Rightarrow> string \<Rightarrow> bool \<Rightarrow> error + string option" where
  "ZscalerFormat_ProcessContent lib line isFirstLine =
     (if length line = 0 then Inr None
      else if braced (TrimSpace line) \<and> \<not> json_ok lib line then Inl ErrInvalidJSON
      else Inr (Some line))"

definition ZscalerFormat_GetContentType :: string where
  "ZscalerFormat_GetContentType = ''application/x-ndjson''"

definition ZscalerFormat_DetectFromFilename :: "string \<Rightarrow> bool" where
  "ZscalerFormat_DetectFromFilename filename =
     (let parts = Split (TrimSuffix filename ''.gz'') (CHR ''_'')
      in if length parts < 4 then False else ParseInt (hd parts) \<noteq> None)"

text \<open>The loop over the lines of the sample: only the first non-empty line is looked at.\<close>

fun zscaler_first_line :: "golib \<Rightarrow> string list \<Rightarrow> bool" where
  "zscaler_first_line lib [] = False"
| "zscaler_first_line lib (l # ls) =
     (let line = TrimSpace l
      in if line = [] then zscaler_first_line lib ls
         else if braced line then json_ok lib line
         else False)"

definition ZscalerFormat_DetectFromContent :: "golib \<Rightarrow> string \<Rightarrow> bool" where
  "ZscalerFormat_DetectFromContent lib sample =
     (if length sample = 0 then False
      else zscaler_first_line lib (Split sample (CHR 0x0A)))"

subsection \<open>cisco_umbrella.go\<close>

definition CiscoUmbrellaFormat_ParseTimestamp :: "string \<Rightarrow> error + int" where
  "CiscoUmbrellaFormat_ParseTimestamp filename =
     (let parts = Split (TrimSuffix (TrimSuffix filename ''.csv.gz'') ''.gz'') (CHR ''-'')
      in if length parts < 5 then Inl ErrInvalidFilename
         else (case Atoi (parts ! 0) of None \<Rightarrow> Inl ErrInvalidYear | Some year \<Rightarrow>
              (case Atoi (parts ! 1) of None \<Rightarrow> Inl ErrInvalidMonth | Some month \<Rightarrow>
              (case Atoi (parts ! 2) of None \<Rightarrow> Inl ErrInvalidDay | Some day \<Rightarrow>
              (case Atoi (parts ! 3) of None \<Rightarrow> Inl ErrInvalidHour | Some hour \<Rightarrow>
              (case Atoi (parts ! 4) of None \<Rightarrow> Inl ErrInvalidMinute | Some minute \<Rightarrow>
                 Inr (Date_Unix year month day hour minute 0)))))))"

definition CiscoUmbrellaFormat_ProcessContent :: "string \<Rightarrow> bool \<Rightarrow> error + string option" where
  "CiscoUmbrellaFormat_ProcessContent line isFirstLine =
     (if isFirstLine then Inr None
      else if length (TrimSpace line) = 0 then Inr None
      else Inr (Some line))"

definition CiscoUmbrellaFormat_GetContentType :: string where
  "CiscoUmbrellaFormat_GetContentType = ''text/plain''"

definition CiscoUmbrellaFormat_DetectFromFilename :: "string \<Rightarrow> bool" where
  "CiscoUmbrellaFormat_DetectFromFilename filename =
     (if \<not> HasSuffix filename ''.csv'' \<and> \<not> HasSuffix filename ''.csv.gz'' then False
      else let base = (if HasSuffix filename ''.csv.gz'' then TrimSuffix filename ''.csv.gz''
                       else TrimSuffix filename ''.csv'');
               parts = Split base (CHR ''-'')
           in if length parts < 6 then False
              else list_all (\<lambda>p. Atoi p \<noteq> None) (take 5 parts))"

definition looks_like_csv :: "string \<Rightarrow> bool" where
  "looks_like_csv l = (Contains l '','' \<and> \<not> HasPrefix l ''{'' \<and> \<not> HasPrefix l ''['')"

definition ciscoKeywords :: "string list" where
  "ciscoKeywords = [''timestamp'', ''domain'', ''action'', ''identity'', ''categories'']"

definition CiscoUmbrellaFormat_DetectFromContent :: "string \<Rightarrow> bool" where
  "CiscoUmbrellaFormat_DetectFromContent sample =
     (if length sample = 0 then False
      else let lines = Split sample (CHR 0x0A)
           in if length lines < 2 then False
              else let header = TrimSpace (lines ! 0)
                   in if \<not> looks_like_csv header then False
                      else let matches = length (filter (Contains (ToLower header)) ciscoKeywords)
                           in if \<not> looks_like_csv (TrimSpace (lines ! 1)) then False
                              else 2 \<le> matches)"

subsection \<open>generic.go\<close>

definition NewGenericFormat :: "FormatConfig \<Rightarrow> FormatConfig" where
  "NewGenericFormat config =
     (let c1 = (if ContentType config = [] then config\<lparr>ContentType := ''text/plain''\<rparr>
                else config)
      in if FieldSeparator c1 = [] then c1\<lparr>FieldSeparator := '',''\<rparr> else c1)"

definition GenericFormat_ParseTimestamp :: "golib \<Rightarrow> FormatConfig \<Rightarrow> string \<Rightarrow> error + int" where
  "GenericFormat_ParseTimestamp lib config filename =
     (case regexp_submatch lib (TimestampRegex config) filename of
        None \<Rightarrow> Inl ErrInvalidRegex
      | Some matches \<Rightarrow>
          if length matches < 2 then Inl ErrRegexNoMatch
          else let timestampStr = matches ! 1
               in if TimestampFormat config = ''unix'' then
                    (case ParseInt timestampStr of
                       None \<Rightarrow> Inl ErrParseTimestamp | Some t \<Rightarrow> Inr t)
                  else if TimestampFormat config = ''unix_ms'' then
                    (case ParseInt timestampStr of
                       None \<Rightarrow> Inl ErrParseTimestamp | Some ms \<Rightarrow> Inr (quot ms 1000))
                  else (case time_parse lib (TimestampFormat config) timestampStr of
                          None \<Rightarrow> Inl ErrTimeLayout | Some t \<Rightarrow> Inr t))"

definition GenericFormat_ProcessContent ::
  "FormatConfig \<Rightarrow> string \<Rightarrow> bool \<Rightarrow> error + string option" where
  "GenericFormat_ProcessContent config line isFirstLine =
     (if isFirstLine \<and> SkipHeaderLines config > 0 then Inr None
      else if TrimSpace line = [] then Inr None
      else Inr (Some line))"

definition GenericFormat_DetectFromFilename :: "FormatConfig \<Rightarrow> string \<Rightarrow> bool" where
  "GenericFormat_DetectFromFilename config filename =
     (case Match (FilenamePattern config) filename of None \<Rightarrow> False | Some matched \<Rightarrow> matched)"

text \<open>
  The JSON branch returns at the first non-empty line; when every line is empty the
  \<^verbatim>\<open>switch\<close> is left and the function accepts.
\<close>

fun generic_first_line :: "string list \<Rightarrow> bool" where
  "generic_first_line [] = True"
| "generic_first_line (l # ls) =
     (let line = TrimSpace l
      in if line = [] then generic_first_line ls else braced line)"

definition GenericFormat_DetectFromContent :: "FormatConfig \<Rightarrow> string \<Rightarrow> bool" where
  "GenericFormat_DetectFromContent config sample =
     (if length sample = 0 then False
      else if ContentType config = ''application/x-ndjson''
              \<or> ContentType config = ''application/json''
           then generic_first_line (Split sample (CHR 0x0A))
      else if ContentType config = ''text/plain'' then 0 < length (TrimSpace sample)
      else True)"

subsection \<open>format.go: the interface and the registry\<close>

text \<open>
  The interface \<^verbatim>\<open>LogFormat\<close> has three implementations; a value of the interface is one
  of them, a generic one with the configuration \<^verbatim>\<open>NewGenericFormat\<close> stored in it.
\<close>

datatype LogFormat = ZscalerFormat | CiscoUmbrellaFormat | GenericFormat FormatConfig

fun LogFormat_Name :: "LogFormat \<Rightarrow> string" where
  "LogFormat_Name ZscalerFormat = ''zscaler''"
| "LogFormat_Name CiscoUmbrellaFormat = ''cisco_umbrella''"
| "LogFormat_Name (GenericFormat config) = Name config"

fun ParseTimestamp :: "golib \<Rightarrow> LogFormat \<Rightarrow> string \<Rightarrow> error + int" where
  "ParseTimestamp lib ZscalerFormat filename = ZscalerFormat_ParseTimestamp filename"
| "ParseTimestamp lib CiscoUmbrellaFormat filename = CiscoUmbrellaFormat_ParseTimestamp filename"
| "ParseTimestamp lib (GenericFormat config) filename =
     GenericFormat_ParseTimestamp lib config filename"

fun ProcessContent :: "golib \<Rightarrow> LogFormat \<Rightarrow> string \<Rightarrow> bool \<Rightarrow> error + string option" where
  "ProcessContent lib ZscalerFormat line isFirstLine =
     ZscalerFormat_ProcessContent lib line isFirstLine"
| "ProcessContent lib CiscoUmbrellaFormat line isFirstLine =
     CiscoUmbrellaFormat_ProcessContent line isFirstLine"
| "ProcessContent lib (GenericFormat config) line isFirstLine =
     GenericFormat_ProcessContent config line isFirstLine"

fun GetContentType :: "LogFormat \<Rightarrow> string" where
  "GetContentType ZscalerFormat = ZscalerFormat_GetContentType"
| "GetContentType CiscoUmbrellaFormat = CiscoUmbrellaFormat_GetContentType"
| "GetContentType (GenericFormat config) = ContentType config"

fun DetectFromFilename :: "LogFormat \<Rightarrow> string \<Rightarrow> bool" where
  "DetectFromFilename ZscalerFormat filename = ZscalerFormat_DetectFromFilename filename"
| "DetectFromFilename CiscoUmbrellaFormat filename =
     CiscoUmbrellaFormat_DetectFromFilename filename"
| "DetectFromFilename (GenericFormat config) filename =
     GenericFormat_DetectFromFilename config filename"

fun DetectFromContent :: "golib \<Rightarrow> LogFormat \<Rightarrow> string \<Rightarrow> bool" where
  "DetectFromContent lib ZscalerFormat sample = ZscalerFormat_DetectFromContent lib sample"
| "DetectFromContent lib CiscoUmbrellaFormat sample =
     CiscoUmbrellaFormat_DetectFromContent sample"
| "DetectFromContent lib (GenericFormat config) sample =
     GenericFormat_DetectFromContent config sample"

text \<open>
  The registry is a Go map from names to formats. \<^verbatim>\<open>Register\<close> stores under the format's
  name, replacing what was there.
\<close>

type_synonym Registry = "string \<rightharpoonup> LogFormat"

definition Register :: "Registry \<Rightarrow> LogFormat \<Rightarrow> Registry" where
  "Register r format = r(LogFormat_Name format \<mapsto> format)"

definition NewRegistry :: Registry where
  "NewRegistry = Register (Register Map.empty ZscalerFormat) CiscoUmbrellaFormat"

definition NewRegistryFromConfig :: "FormatConfig list \<Rightarrow> Registry" where
  "NewRegistryFromConfig formatConfigs =
     Register
       (Register (foldl (\<lambda>r cfg. Register r (GenericFormat (NewGenericFormat cfg)))
                        Map.empty formatConfigs)
                 ZscalerFormat)
       CiscoUmbrellaFormat"

definition GetFormat :: "Registry \<Rightarrow> string \<Rightarrow> error + LogFormat" where
  "GetFormat r name = (case r name of None \<Rightarrow> Inl ErrUnknownFormat | Some f \<Rightarrow> Inr f)"

text \<open>
  \<^verbatim>\<open>DetectFormat\<close> ranges over the map twice. Go leaves the order of a \<^verbatim>\<open>range\<close> over a
  map open, and it may differ from one loop to the next: an order is a list of the keys,
  each once, and the two loops get one each (\<open>order1\<close>, \<open>order2\<close>) as arguments. The
  result is \<open>None\<close> for Go's nil interface, when the map has no \<^verbatim>\<open>"zscaler"\<close>.
\<close>

definition iteration_order :: "Registry \<Rightarrow> string list \<Rightarrow> bool" where
  "iteration_order r order = (distinct order \<and> set order = dom r)"

fun first_match :: "Registry \<Rightarrow> (LogFormat \<Rightarrow> bool) \<Rightarrow> string list \<Rightarrow> LogFormat option" where
  "first_match r detect [] = None"
| "first_match r detect (k # ks) =
     (case r k of
        None \<Rightarrow> first_match r detect ks
      | Some format \<Rightarrow> if detect format then Some format else first_match r detect ks)"

definition DetectFormat ::
  "golib \<Rightarrow> Registry \<Rightarrow> string list \<Rightarrow> string list \<Rightarrow> string \<Rightarrow> string \<Rightarrow> LogFormat option" where
  "DetectFormat lib r order1 order2 filename contentSample =
     (case first_match r (\<lambda>format. DetectFromFilename format filename) order1 of
        Some format \<Rightarrow> Some format
      | None \<Rightarrow>
          (case first_match r (\<lambda>format. DetectFromContent lib format contentSample) order2 of
             Some format \<Rightarrow> Some format
           | None \<Rightarrow> r ''zscaler''))"

section \<open>Watermark store (internal/state)\<close>

text \<open>
  The Go struct \<^verbatim>\<open>State\<close> of \<^verbatim>\<open>internal/state/state.go\<close>. Its counters and timestamps
  are \<^verbatim>\<open>int64\<close>: they are 64-bit words here, \<open>+\<close> wraps as Go's addition does, and
  the comparison of \<^verbatim>\<open>UpdateProgress\<close> is the signed one (\<open><s\<close>).
\<close>

type_synonym int64 = "64 word"

record State =
  LastProcessedTimestamp :: int64
  LastProcessedFile :: string
  TotalFilesProcessed :: int64
  TotalBytesProcessed :: int64
  LastUpdated :: int64

text \<open>
  The local-file manager and the Redis manager. Channels, the mutex and the Redis client are
  not data of the watermark; the fields kept are the ones \<^verbatim>\<open>UpdateProgress\<close> and
  \<^verbatim>\<open>Save\<close> read or write.
\<close>

record Manager =
  filePath :: string
  state :: State
  dirty :: bool

record RedisStateManager =
  keyPrefix :: string
  rstate :: State
  rdirty :: bool

text \<open>
  \<^verbatim>\<open>UpdateProgress\<close>, one assignment of the source to a line; \<open>now\<close> is the value of
  \<^verbatim>\<open>time.Now().Unix()\<close> at the call. The Redis manager has the same body.
\<close>

definition UpdateProgress :: "int64 \<Rightarrow> Manager \<Rightarrow> int64 \<Rightarrow> string \<Rightarrow> int64 \<Rightarrow> Manager" where
  "UpdateProgress now m timestamp path bytesProcessed =
     (let s0 = state m;
          s1 = (if LastProcessedTimestamp s0 <s timestamp
                then s0\<lparr>LastProcessedTimestamp := timestamp\<rparr> else s0);
          s2 = s1\<lparr>LastProcessedFile := path\<rparr>;
          s3 = s2\<lparr>TotalFilesProcessed := TotalFilesProcessed s2 + 1\<rparr>;
          s4 = s3\<lparr>TotalBytesProcessed := TotalBytesProcessed s3 + bytesProcessed\<rparr>;
          s5 = s4\<lparr>LastUpdated := now\<rparr>
      in m\<lparr>state := s5, dirty := True\<rparr>)"

definition Redis_UpdateProgress ::
  "int64 \<Rightarrow> RedisStateManager \<Rightarrow> int64 \<Rightarrow> string \<Rightarrow> int64 \<Rightarrow> RedisStateManager" where
  "Redis_UpdateProgress now m timestamp path bytesProcessed =
     (let s0 = rstate m;
          s1 = (if LastProcessedTimestamp s0 <s timestamp
                then s0\<lparr>LastProcessedTimestamp := timestamp\<rparr> else s0);
          s2 = s1\<lparr>LastProcessedFile := path\<rparr>;
          s3 = s2\<lparr>TotalFilesProcessed := TotalFilesProcessed s2 + 1\<rparr>;
          s4 = s3\<lparr>TotalBytesProcessed := TotalBytesProcessed s3 + bytesProcessed\<rparr>;
          s5 = s4\<lparr>LastUpdated := now\<rparr>
      in m\<lparr>rstate := s5, rdirty := True\<rparr>)"

text \<open>A call sequence: each call carries its own clock reading.\<close>

type_synonym progress_call = "int64 \<times> int64 \<times> string \<times> int64"

fun UpdateProgress_all :: "Manager \<Rightarrow> progress_call list \<Rightarrow> Manager" where
  "UpdateProgress_all m [] = m"
| "UpdateProgress_all m ((now, ts, path, n) # cs) =
     UpdateProgress_all (UpdateProgress now m ts path n) cs"

fun Redis_UpdateProgress_all :: "RedisStateManager \<Rightarrow> progress_call list \<Rightarrow> RedisStateManager" where
  "Redis_UpdateProgress_all m [] = m"
| "Redis_UpdateProgress_all m ((now, ts, path, n) # cs) =
     Redis_UpdateProgress_all (Redis_UpdateProgress now m ts path n) cs"

text \<open>
  \<^verbatim>\<open>Save\<close> on the local-file backend. The file system is a map from paths to contents.
  What the outside decides is given to the model: \<open>marshal\<close> is \<^verbatim>\<open>json.MarshalIndent\<close>
  (\<open>None\<close> when it fails), \<open>w\<close> says how \<^verbatim>\<open>os.WriteFile\<close> ends (a failed write leaves
  something or nothing at the temporary path) and \<open>rename_ok\<close> whether \<^verbatim>\<open>os.Rename\<close>
  succeeds. The result is the returned error, the manager and the file system afterwards.
\<close>

type_synonym files = "string \<rightharpoonup> string"

datatype write_outcome = WriteOk | WriteFailed "string option"

definition Save ::
  "(State \<Rightarrow> string option) \<Rightarrow> write_outcome \<Rightarrow> bool \<Rightarrow> Manager \<Rightarrow> files
     \<Rightarrow> error option \<times> Manager \<times> files" where
  "Save marshal w rename_ok m fs =
     (if \<not> dirty m then (None, m, fs)
      else (case marshal (state m) of
              None \<Rightarrow> (Some ErrMarshal, m, fs)
            | Some data \<Rightarrow>
                (let tmpPath = filePath m @ ''.tmp''
                 in (case w of
                       WriteFailed left \<Rightarrow> (Some ErrWriteFile, m, fs(tmpPath := left))
                     | WriteOk \<Rightarrow>
                         (let fs1 = fs(tmpPath \<mapsto> data)
                          in if \<not> rename_ok then (Some ErrRename, m, fs1)
                             else (None, m\<lparr>dirty := False\<rparr>,
                                   (fs1(tmpPath := None))(filePath m \<mapsto> data)))))))"

text \<open>
  \<^verbatim>\<open>Save\<close> on the Redis backend: one \<^verbatim>\<open>SET\<close> of the key \<^verbatim>\<open><prefix>:state\<close>, without expiry.
  The store is a map from keys to values; \<open>set_ok\<close> says whether the command succeeds.
\<close>

definition Redis_Save ::
  "(State \<Rightarrow> string option) \<Rightarrow> bool \<Rightarrow> RedisStateManager \<Rightarrow> files
     \<Rightarrow> error option \<times> RedisStateManager \<times> files" where
  "Redis_Save marshal set_ok m store =
     (if \<not> rdirty m then (None, m, store)
      else (case marshal (rstate m) of
              None \<Rightarrow> (Some ErrMarshal, m, store)
            | Some data \<Rightarrow>
                (let key = keyPrefix m @ '':state''
                 in if \<not> set_ok then (Some ErrRedisSet, m, store)
                    else (None, m\<lparr>rdirty := False\<rparr>, store(key \<mapsto> data)))))"

section \<open>Scanner (internal/scanner)\<close>

record FileJob =
  S3Key :: string
  Timestamp :: int
  Size :: int

text \<open>
  \<open>delayWindow\<close> is a \<^verbatim>\<open>time.Duration\<close>, a number of nanoseconds; \<open>logFormat\<close> is \<open>None\<close>
  for Go's nil (auto-detection), and so is \<open>formatRegistry\<close>.
\<close>

record Scanner =
  bucket :: string
  prefix :: string
  delayWindow :: int
  logFormat :: "LogFormat option"
  formatRegistry :: "Registry option"

definition NewScanner ::
  "string \<Rightarrow> string \<Rightarrow> int \<Rightarrow> LogFormat option \<Rightarrow> Registry option \<Rightarrow> Scanner" where
  "NewScanner bucket0 prefix0 delayWindow0 logFormat0 formatRegistry0 =
     \<lparr>bucket = TrimPrefix bucket0 ''s3://'', prefix = TrimPrefix prefix0 ''/'',
      delayWindow = delayWindow0, logFormat = logFormat0, formatRegistry = formatRegistry0\<rparr>"

text \<open>
  The object store. A \<^verbatim>\<open>ListObjectsV2\<close> request is answered page by page, and a page is
  its objects or an error; the store is a function from the request to its pages.
\<close>

record ListObjectsV2Input =
  Bucket :: string
  Prefix :: string
  StartAfter :: "string option"

record s3_object =
  Key :: string
  ObjectSize :: int

datatype list_page = Page "s3_object list" | PageError

type_synonym s3_lister = "ListObjectsV2Input \<Rightarrow> list_page list"

text \<open>
  What the scanner gets from outside: the library, the store, and for each key the two
  orders in which \<^verbatim>\<open>DetectFormat\<close> happens to range over the registry.
\<close>

record scan_env =
  lib :: golib
  s3_list :: s3_lister
  map_orders :: "string \<Rightarrow> string list \<times> string list"

definition detectAndParseTimestamp :: "scan_env \<Rightarrow> Scanner \<Rightarrow> string \<Rightarrow> error + int" where
  "detectAndParseTimestamp env s key =
     (case formatRegistry s of
        None \<Rightarrow> Inl ErrNoRegistry
      | Some r \<Rightarrow>
          (case DetectFormat (lib env) r (fst (map_orders env key)) (snd (map_orders env key))
                  key [] of
             None \<Rightarrow> Inl ErrNoFormatDetected
           | Some detectedFormat \<Rightarrow> ParseTimestamp (lib env) detectedFormat key))"

text \<open>The body of the loop over the objects of one page: skip the object or append a job.\<close>

definition list_object ::
  "scan_env \<Rightarrow> Scanner \<Rightarrow> int \<Rightarrow> int \<Rightarrow> FileJob list \<Rightarrow> s3_object \<Rightarrow> FileJob list" where
  "list_object env s fromTimestamp endTimestamp jobs obj =
     (case (case logFormat s of
              Some format \<Rightarrow> ParseTimestamp (lib env) format (Key obj)
            | None \<Rightarrow> detectAndParseTimestamp env s (Key obj)) of
        Inl err \<Rightarrow> jobs
      | Inr timestamp \<Rightarrow>
          if timestamp < fromTimestamp \<or> timestamp > endTimestamp then jobs
          else jobs @ [\<lparr>S3Key = Key obj, Timestamp = timestamp, Size = ObjectSize obj\<rparr>])"

fun list_pages ::
  "scan_env \<Rightarrow> Scanner \<Rightarrow> int \<Rightarrow> int \<Rightarrow> FileJob list \<Rightarrow> list_page list
     \<Rightarrow> error + FileJob list" where
  "list_pages env s fromTimestamp endTimestamp jobs [] = Inr jobs"
| "list_pages env s fromTimestamp endTimestamp jobs (PageError # pages) = Inl ErrListObjects"
| "list_pages env s fromTimestamp endTimestamp jobs (Page contents # pages) =
     list_pages env s fromTimestamp endTimestamp
       (foldl (list_object env s fromTimestamp endTimestamp) jobs contents) pages"

definition listFiles ::
  "scan_env \<Rightarrow> Scanner \<Rightarrow> string \<Rightarrow> string \<Rightarrow> int \<Rightarrow> int \<Rightarrow> error + FileJob list" where
  "listFiles env s pfx lastProcessedFile fromTimestamp endTimestamp =
     (let listInput = \<lparr>Bucket = bucket s, Prefix = pfx,
            StartAfter = (if lastProcessedFile \<noteq> [] \<and> HasPrefix lastProcessedFile pfx
                          then Some lastProcessedFile else None)\<rparr>
      in list_pages env s fromTimestamp endTimestamp [] (s3_list env listInput))"

text \<open>
  \<^verbatim>\<open>generatePrefixes\<close>: one prefix for each day from the day of \<open>fromTimestamp\<close> to the day
  of \<open>toTimestamp\<close>; \<open>current\<close> and \<open>end\<close> are epoch seconds.
\<close>

definition day_prefix :: "string \<Rightarrow> int \<Rightarrow> string" where
  "day_prefix pfx current =
     (case civil_from_days (current div 86400) of
        (y, m, d) \<Rightarrow> pfx @ ''year='' @ Itoa y @ ''/month='' @ Itoa m @ ''/day='' @ Itoa d @ ''/'')"

function prefixes_loop :: "string \<Rightarrow> int \<Rightarrow> int \<Rightarrow> string list" where
  "prefixes_loop pfx current end =
     (if current \<le> end then day_prefix pfx current # prefixes_loop pfx (current + 86400) end
      else [])"
  by pat_completeness auto
termination
  by (relation "measure (\<lambda>(pfx, current, end). nat (end - current + 1))") auto

declare prefixes_loop.simps [simp del]

definition generatePrefixes :: "Scanner \<Rightarrow> int \<Rightarrow> int \<Rightarrow> string list" where
  "generatePrefixes s fromTimestamp toTimestamp =
     (case civil_from_days (fromTimestamp div 86400) of (fy, fm, fd) \<Rightarrow>
      case civil_from_days (toTimestamp div 86400) of (ty, tm, td) \<Rightarrow>
        prefixes_loop (prefix s) (Date_Unix fy fm fd 0 0 0) (Date_Unix ty tm td 23 59 59))"

fun scan_prefixes ::
  "scan_env \<Rightarrow> Scanner \<Rightarrow> string \<Rightarrow> int \<Rightarrow> int \<Rightarrow> FileJob list \<Rightarrow> string list
     \<Rightarrow> error + FileJob list" where
  "scan_prefixes env s lastProcessedFile fromTimestamp endTimestamp jobs [] = Inr jobs"
| "scan_prefixes env s lastProcessedFile fromTimestamp endTimestamp jobs (pfx # pfxs) =
     (case listFiles env s pfx lastProcessedFile fromTimestamp endTimestamp of
        Inl err \<Rightarrow> Inl (ErrListPrefix pfx err)
      | Inr files \<Rightarrow>
          scan_prefixes env s lastProcessedFile fromTimestamp endTimestamp (jobs @ files) pfxs)"

text \<open>
  \<^verbatim>\<open>Scan\<close>. \<open>now\<close> is the reading of \<^verbatim>\<open>time.Now()\<close>, in nanoseconds since the epoch;
  \<^verbatim>\<open>Unix()\<close> is the floor of the seconds.
\<close>

definition scan_end :: "Scanner \<Rightarrow> int \<Rightarrow> int" where
  "scan_end s now = (now - delayWindow s) div 1000000000"

definition scan_from :: "Scanner \<Rightarrow> int \<Rightarrow> int \<Rightarrow> int" where
  "scan_from s now fromTimestamp =
     (if fromTimestamp = 0 then (now - delayWindow s - 60 * 1000000000) div 1000000000
      else fromTimestamp)"

definition Scan :: "scan_env \<Rightarrow> Scanner \<Rightarrow> int \<Rightarrow> int \<Rightarrow> string \<Rightarrow> error + FileJob list" where
  "Scan env s now fromTimestamp lastProcessedFile =
     (let endTimestamp = scan_end s now;
          fromTimestamp1 = scan_from s now fromTimestamp;
          prefixesToScan = generatePrefixes s fromTimestamp1 endTimestamp
      in scan_prefixes env s lastProcessedFile fromTimestamp1 endTimestamp [] prefixesToScan)"

text \<open>\<^verbatim>\<open>parseTimestampFromKey\<close>, with \<^verbatim>\<open>path.Base\<close>.\<close>

definition path_Base :: "string \<Rightarrow> string" where
  "path_Base p =
     (if p = [] then ''.''
      else let q = rev (dropWhile (\<lambda>c. c = CHR ''/'') (rev p))
           in if q = [] then ''/'' else rev (takeWhile (\<lambda>c. c \<noteq> CHR ''/'') (rev q)))"

definition parseTimestampFromKey :: "string \<Rightarrow> error + int" where
  "parseTimestampFromKey key =
     (case Split (TrimSuffix (path_Base key) ''.gz'') (CHR ''_'') of
        [] \<Rightarrow> Inl ErrInvalidFilename
      | p # ps \<Rightarrow> (case ParseInt p of None \<Rightarrow> Inl ErrParseTimestamp | Some t \<Rightarrow> Inr t))"

section \<open>HTTP sender (internal/output)\<close>

record Batch =
  Lines :: "string list"
  BatchSize :: int

text \<open>The settings of \<^verbatim>\<open>HTTPSender\<close> that the batcher and the senders read.\<close>

record HTTPSender =
  endpoints :: "string list"
  batchLines :: int
  batchBytes :: int
  workers :: int
  bufferSize :: int

definition emptyBatch :: Batch where
  "emptyBatch = \<lparr>Lines = [], BatchSize = 0\<rparr>"

text \<open>
  The batcher is a loop around a \<^verbatim>\<open>select\<close>; an event is the case that fires. The state
  is the current batch, the batches sent to \<^verbatim>\<open>batchChan\<close> so far, in order, and whether
  the goroutine has returned. The send in \<^verbatim>\<open>flushBatch\<close> waits for room in the queue;
  its other case, \<^verbatim>\<open>doneChan\<close>, cannot fire while the batcher runs, because \<^verbatim>\<open>Stop\<close>
  closes \<^verbatim>\<open>doneChan\<close> only after \<^verbatim>\<open>wg.Wait()\<close> has seen the batcher return.
\<close>

datatype batcher_event = LineReceived string | LineChanClosed | FlushTick | MonitorTick | Done

record batcher_state =
  currentBatch :: Batch
  batchChan :: "Batch list"
  returned :: bool

definition flushBatch :: "batcher_state \<Rightarrow> batcher_state" where
  "flushBatch st =
     (if length (Lines (currentBatch st)) > 0
      then st\<lparr>batchChan := batchChan st @ [currentBatch st], currentBatch := emptyBatch\<rparr>
      else st)"

definition addLine :: "Batch \<Rightarrow> string \<Rightarrow> Batch" where
  "addLine b line = \<lparr>Lines = Lines b @ [line], BatchSize = BatchSize b + (int (length line) + 1)\<rparr>"

definition batchFull :: "HTTPSender \<Rightarrow> Batch \<Rightarrow> bool" where
  "batchFull hs b = (int (length (Lines b)) \<ge> batchLines hs \<or> BatchSize b \<ge> batchBytes hs)"

fun batcher_step :: "HTTPSender \<Rightarrow> batcher_state \<Rightarrow> batcher_event \<Rightarrow> batcher_state" where
  "batcher_step hs st (LineReceived line) =
     (let st1 = st\<lparr>currentBatch := addLine (currentBatch st) line\<rparr>
      in if batchFull hs (currentBatch st1) then flushBatch st1 else st1)"
| "batcher_step hs st LineChanClosed = (flushBatch st)\<lparr>returned := True\<rparr>"
| "batcher_step hs st FlushTick = flushBatch st"
| "batcher_step hs st MonitorTick = st"
| "batcher_step hs st Done = (flushBatch st)\<lparr>returned := True\<rparr>"

fun batcher_loop :: "HTTPSender \<Rightarrow> batcher_state \<Rightarrow> batcher_event list \<Rightarrow> batcher_state" where
  "batcher_loop hs st [] = st"
| "batcher_loop hs st (ev # evs) =
     (if returned st then st else batcher_loop hs (batcher_step hs st ev) evs)"

definition batcher :: "HTTPSender \<Rightarrow> batcher_event list \<Rightarrow> batcher_state" where
  "batcher hs evs =
     batcher_loop hs \<lparr>currentBatch = emptyBatch, batchChan = [], returned = False\<rparr> evs"

text \<open>
  \<^verbatim>\<open>sendBatch\<close>. The request it builds, and what it returns for each way the round trip
  ends: the request cannot be created, the transport fails, or a response comes with a
  status code and a body.
\<close>

record http_request =
  Method :: string
  URL :: string
  Header :: "(string \<times> string) list"
  Body :: string

datatype round_trip = CreateFailed | TransportFailed | Response int string

definition sendBatch_request :: "Batch \<Rightarrow> string \<Rightarrow> http_request" where
  "sendBatch_request batch endpoint =
     \<lparr>Method = ''POST'', URL = endpoint,
      Header = [(''Content-Type'', ''application/x-ndjson'')],
      Body = concat (map (\<lambda>line. line @ [CHR 0x0A]) (Lines batch))\<rparr>"

definition sendBatch :: "(http_request \<Rightarrow> round_trip) \<Rightarrow> Batch \<Rightarrow> string \<Rightarrow> error option" where
  "sendBatch client batch endpoint =
     (case client (sendBatch_request batch endpoint) of
        CreateFailed \<Rightarrow> Some ErrCreateRequest
      | TransportFailed \<Rightarrow> Some ErrSendRequest
      | Response code body \<Rightarrow>
          if code < 200 \<or> code \<ge> 300 then Some (ErrHTTPStatus code body) else None)"

section \<open>Download workers (internal/worker, \<^verbatim>\<open>HTTPPool\<close>)\<close>

text \<open>
  What \<^verbatim>\<open>GetObject\<close>, the gzip reader and the line scanner give for a key: the download
  fails, the body is not gzip, or the scanner yields lines and then ends, with an error
  (a line over 1 MiB, a broken stream) or without.
\<close>

datatype s3_body = GetFailed | NotGzip | Scanned "string list" bool

text \<open>
  The pool: its three counters (\<^verbatim>\<open>atomic.Int64\<close>), the watermark store it was given, the
  lines that \<^verbatim>\<open>HTTPSender.SendLine\<close> has put on the sender's \<^verbatim>\<open>lineChan\<close> so far, and the
  format, \<open>None\<close> for Go's nil.
\<close>

record HTTPPool =
  filesProcessed :: int64
  bytesProcessed :: int64
  errors :: int64
  stateManager :: Manager
  lineChan :: "string list"
  poolFormat :: "LogFormat option"

text \<open>
  The scan loop of \<^verbatim>\<open>processFile\<close>. A nil format makes the call of \<^verbatim>\<open>ProcessContent\<close> a
  nil dereference, which is a panic of the process: the third outcome.
\<close>

datatype 'a outcome = Ok 'a | Failed error | Panic

fun process_lines ::
  "golib \<Rightarrow> LogFormat option \<Rightarrow> string list \<Rightarrow> nat \<Rightarrow> nat \<Rightarrow> bool \<Rightarrow> string list
     \<Rightarrow> string list \<times> nat outcome" where
  "process_lines lb fmt sent lineCount byteCount isFirstLine [] = (sent, Ok byteCount)"
| "process_lines lb fmt sent lineCount byteCount isFirstLine (line # rest) =
     (case fmt of
        None \<Rightarrow> (sent, Panic)
      | Some format \<Rightarrow>
          (case ProcessContent lb format line isFirstLine of
             Inl err \<Rightarrow> (sent, Failed (ErrProcessLine (Suc lineCount) err))
           | Inr None \<Rightarrow> process_lines lb fmt sent (Suc lineCount) byteCount False rest
           | Inr (Some processedLine) \<Rightarrow>
               process_lines lb fmt (sent @ [processedLine]) (Suc lineCount)
                 (byteCount + length processedLine) False rest))"

definition processFile ::
  "golib \<Rightarrow> (string \<Rightarrow> s3_body) \<Rightarrow> HTTPPool \<Rightarrow> FileJob \<Rightarrow> HTTPPool \<times> unit outcome" where
  "processFile lb get hp job =
     (case get (S3Key job) of
        GetFailed \<Rightarrow> (hp, Failed ErrDownload)
      | NotGzip \<Rightarrow> (hp, Failed ErrDecompress)
      | Scanned lines scanErr \<Rightarrow>
          (case process_lines lb (poolFormat hp) (lineChan hp) 0 0 True lines of
             (sent, Panic) \<Rightarrow> (hp\<lparr>lineChan := sent\<rparr>, Panic)
           | (sent, Failed err) \<Rightarrow> (hp\<lparr>lineChan := sent\<rparr>, Failed err)
           | (sent, Ok byteCount) \<Rightarrow>
               if scanErr then (hp\<lparr>lineChan := sent\<rparr>, Failed ErrScan)
               else (hp\<lparr>lineChan := sent,
                        bytesProcessed := bytesProcessed hp + of_nat byteCount\<rparr>, Ok ())))"

text \<open>
  \<^verbatim>\<open>worker\<close>: the loop over the jobs it takes from the queue. The result says whether
  the process is still alive.
\<close>

fun worker :: "golib \<Rightarrow> (string \<Rightarrow> s3_body) \<Rightarrow> HTTPPool \<Rightarrow> FileJob list \<Rightarrow> HTTPPool \<times> bool" where
  "worker lb get hp [] = (hp, True)"
| "worker lb get hp (job # jobs) =
     (case processFile lb get hp job of
        (hp1, Panic) \<Rightarrow> (hp1, False)
      | (hp1, Failed err) \<Rightarrow> worker lb get (hp1\<lparr>errors := errors hp1 + 1\<rparr>) jobs
      | (hp1, Ok u) \<Rightarrow> worker lb get (hp1\<lparr>filesProcessed := filesProcessed hp1 + 1\<rparr>) jobs)"

section \<open>Configuration (internal/config)\<close>

record RedisConfig =
  Enabled :: bool
  Host :: string
  Port :: int
  Password :: string
  Database :: int
  RedisKeyPrefix :: string

text \<open>
  \<^verbatim>\<open>Config\<close>, its nested structs flattened: a field \<^verbatim>\<open>c.HTTP.BatchLines\<close> is
  \<open>HTTP_BatchLines\<close>. Durations are numbers of nanoseconds. The fields that \<^verbatim>\<open>Validate\<close>
  neither reads nor writes are left out.
\<close>

record Config =
  S3_Bucket :: string
  S3_Region :: string
  HTTP_Endpoints :: "string list"
  HTTP_BatchLines :: int
  HTTP_BatchBytes :: int
  HTTP_FlushInterval :: int
  HTTP_Workers :: int
  HTTP_BufferSize :: int
  Processing_WorkerCount :: int
  Processing_ScanInterval :: int
  Processing_DelayWindow :: int
  Processing_LogFormats :: "FormatConfig list"
  Processing_DefaultFormat :: string
  Processing_LogFormat :: string
  State_Redis :: RedisConfig
  Logging_Level :: string
  Logging_Format :: string
  OTLP_Enabled :: bool
  OTLP_Endpoint :: string
  OTLP_ExportInterval :: int
  OTLP_ServiceName :: string

text \<open>
  \<^verbatim>\<open>url.Parse\<close> is an argument of the model: \<open>Inl msg\<close> for an error, \<open>Inr scheme\<close> for the
  scheme of the parsed URL. The messages are the strings the source appends to \<^verbatim>\<open>errs\<close>.
\<close>

definition endpoint_errors :: "(string \<Rightarrow> string + string) \<Rightarrow> nat \<Rightarrow> string \<Rightarrow> string list" where
  "endpoint_errors url_Parse i endpoint =
     (if endpoint = [] then [''http.endpoints['' @ Itoa (int i) @ ''] cannot be empty'']
      else (case url_Parse endpoint of
              Inl msg \<Rightarrow> [''http.endpoints['' @ Itoa (int i) @ ''] is not a valid URL: '' @ msg]
            | Inr scheme \<Rightarrow>
                if scheme \<noteq> ''http'' \<and> scheme \<noteq> ''https''
                then [''http.endpoints['' @ Itoa (int i) @ ''] must use http or https scheme'']
                else []))"

definition format_errors :: "nat \<Rightarrow> FormatConfig \<Rightarrow> string list" where
  "format_errors i format =
     (if Name format = [] then [''processing.log_formats['' @ Itoa (int i) @ ''].name is required'']
      else [])
     @ (if FilenamePattern format = []
        then [''processing.log_formats['' @ Itoa (int i) @ ''].filename_pattern is required'']
        else [])
     @ (if TimestampRegex format = []
        then [''processing.log_formats['' @ Itoa (int i) @ ''].timestamp_regex is required'']
        else [])"

definition format_defaults :: "FormatConfig \<Rightarrow> FormatConfig" where
  "format_defaults format =
     (let f1 = (if TimestampFormat format = [] then format\<lparr>TimestampFormat := ''unix''\<rparr>
                else format)
      in if ContentType f1 = [] then f1\<lparr>ContentType := ''text/plain''\<rparr> else f1)"

text \<open>The branch on the log formats: the messages it adds and the configuration it leaves.\<close>

definition validate_formats :: "Config \<Rightarrow> string list \<times> Config" where
  "validate_formats c =
     (if length (Processing_LogFormats c) > 0 then
        (let errs = concat (map (\<lambda>(i, format). format_errors i format)
                                (enumerate 0 (Processing_LogFormats c)));
             c1 = c\<lparr>Processing_LogFormats := map format_defaults (Processing_LogFormats c)\<rparr>
         in (errs, if Processing_DefaultFormat c1 = []
                   then c1\<lparr>Processing_DefaultFormat := ''auto''\<rparr> else c1))
      else if Processing_LogFormat c \<noteq> [] then
        (let errs = (if Processing_LogFormat c \<in> set [''zscaler'', ''cisco_umbrella'', ''auto'']
                     then []
                     else [''processing.log_format must be one of: zscaler, cisco_umbrella, auto''])
         in (errs, if Processing_DefaultFormat c = []
                   then c\<lparr>Processing_DefaultFormat := Processing_LogFormat c\<rparr> else c))
      else ([], c\<lparr>Processing_DefaultFormat := ''zscaler''\<rparr>))"

definition validate_redis :: "RedisConfig \<Rightarrow> string list \<times> RedisConfig" where
  "validate_redis r =
     (if Enabled r then
        (let r1 = (if Host r = [] then r\<lparr>Host := ''localhost''\<rparr> else r);
             r2 = (if Port r1 = 0 then r1\<lparr>Port := 6379\<rparr> else r1);
             r3 = (if RedisKeyPrefix r2 = [] then r2\<lparr>RedisKeyPrefix := ''s3-streamer''\<rparr>
                   else r2)
         in (if Database r3 < 0 \<or> Database r3 > 15
             then [''state.redis.database must be between 0 and 15''] else [], r3))
      else ([], r))"

definition errs_before_formats :: "(string \<Rightarrow> string + string) \<Rightarrow> Config \<Rightarrow> string list" where
  "errs_before_formats url_Parse c =
     (if S3_Bucket c = [] then [''s3.bucket is required''] else [])
     @ (if S3_Region c = [] then [''s3.region is required''] else [])
     @ (if length (HTTP_Endpoints c) = 0
        then [''http.endpoints must contain at least one endpoint''] else [])
     @ concat (map (\<lambda>(i, endpoint). endpoint_errors url_Parse i endpoint)
                   (enumerate 0 (HTTP_Endpoints c)))
     @ (if HTTP_BatchLines c \<le> 0 then [''http.batch_lines must be greater than 0''] else [])
     @ (if HTTP_BatchBytes c \<le> 0 then [''http.batch_bytes must be greater than 0''] else [])
     @ (if HTTP_BatchBytes c > 10 * 1024 * 1024 then [''http.batch_bytes cannot exceed 10MB'']
        else [])
     @ (if HTTP_BufferSize c \<le> 0 then [''http.buffer_size must be greater than 0''] else [])
     @ (if HTTP_BufferSize c > 100000 then [''http.buffer_size cannot exceed 100,000''] else [])
     @ (if HTTP_Workers c \<le> 0 then [''http.workers must be greater than 0''] else [])
     @ (if Processing_WorkerCount c \<le> 0
        then [''processing.worker_count must be greater than 0''] else [])
     @ (if HTTP_FlushInterval c \<le> 0 then [''http.flush_interval must be greater than 0'']
        else [])
     @ (if Processing_DelayWindow c \<le> 0
        then [''processing.delay_window must be greater than 0''] else [])
     @ (if Processing_ScanInterval c \<le> 0
        then [''processing.scan_interval must be greater than 0''] else [])"

definition otlp_errors :: "Config \<Rightarrow> string list" where
  "otlp_errors c =
     (if OTLP_Enabled c then
        (if OTLP_Endpoint c = [] then [''otlp.endpoint is required when otlp.enabled is true'']
         else [])
        @ (if OTLP_ServiceName c = []
           then [''otlp.service_name is required when otlp.enabled is true''] else [])
        @ (if OTLP_ExportInterval c \<le> 0 then [''otlp.export_interval must be greater than 0'']
           else [])
      else [])"

definition logging_errors :: "Config \<Rightarrow> string list" where
  "logging_errors c =
     (if ToLower (Logging_Level c) \<in> set [''debug'', ''info'', ''warn'', ''error''] then []
      else [''logging.level must be one of: debug, info, warn, error''])
     @ (if ToLower (Logging_Format c) \<in> set [''json'', ''text''] then []
        else [''logging.format must be one of: json, text''])"

text \<open>
  \<^verbatim>\<open>Validate\<close> has a pointer receiver: the result is the error it returns (\<open>None\<close> for nil,
  otherwise the collected messages) and the configuration as the call leaves it.
\<close>

definition Validate :: "(string \<Rightarrow> string + string) \<Rightarrow> Config \<Rightarrow> string list option \<times> Config" where
  "Validate url_Parse c =
     (case validate_formats c of (ferrs, c1) \<Rightarrow>
      case validate_redis (State_Redis c1) of (rerrs, r) \<Rightarrow>
        (let errs = errs_before_formats url_Parse c @ ferrs @ otlp_errors c1 @ rerrs
                    @ logging_errors c1
         in (if length errs > 0 then Some errs else None, c1\<lparr>State_Redis := r\<rparr>)))"

section \<open>Predicates of the statements\<close>

text \<open>The jobs of a list have their timestamps between two bounds.\<close>

definition in_window :: "int \<Rightarrow> int \<Rightarrow> FileJob list \<Rightarrow> bool" where
  "in_window lo hi jobs = (\<forall>j \<in> set jobs. lo \<le> Timestamp j \<and> Timestamp j \<le> hi)"

text \<open>
  What is proved of the batcher: a batch that was sent is not empty, holds at most
  \<open>batchLines\<close> lines, has the sum of its lines' lengths plus one each as its size, and
  that size is at most \<open>batchBytes + M\<close>, where \<open>M\<close> bounds the length of a line. The
  invariant adds that the current batch is below both bounds.
\<close>

definition batch_bytes_sum :: "string list \<Rightarrow> int" where
  "batch_bytes_sum ls = sum_list (map (\<lambda>l. int (length l) + 1) ls)"

definition batch_ok :: "HTTPSender \<Rightarrow> int \<Rightarrow> Batch \<Rightarrow> bool" where
  "batch_ok hs M b =
     (Lines b \<noteq> [] \<and> int (length (Lines b)) \<le> batchLines hs
      \<and> BatchSize b = batch_bytes_sum (Lines b) \<and> BatchSize b \<le> batchBytes hs + M)"

definition batcher_inv :: "HTTPSender \<Rightarrow> int \<Rightarrow> batcher_state \<Rightarrow> bool" where
  "batcher_inv hs M st =
     (list_all (batch_ok hs M) (batchChan st)
      \<and> int (length (Lines (currentBatch st))) < batchLines hs
      \<and> BatchSize (currentBatch st) < batchBytes hs
      \<and> BatchSize (currentBatch st) = batch_bytes_sum (Lines (currentBatch st))
      \<and> (Lines (currentBatch st) = [] \<or> 0 \<le> M))"

fun line_within :: "int \<Rightarrow> batcher_event \<Rightarrow> bool" where
  "line_within M (LineReceived line) = (int (length line) \<le> M)"
| "line_within M ev = True"

text \<open>The manager and the files (or the store) that a call of \<^verbatim>\<open>Save\<close> leaves.\<close>

definition Save_manager :: "error option \<times> Manager \<times> files \<Rightarrow> Manager" where
  "Save_manager r = fst (snd r)"

definition Save_files :: "error option \<times> Manager \<times> files \<Rightarrow> files" where
  "Save_files r = snd (snd r)"

definition Redis_Save_manager :: "error option \<times> RedisStateManager \<times> files \<Rightarrow> RedisStateManager" where
  "Redis_Save_manager r = fst (snd r)"

definition Redis_Save_store :: "error option \<times> RedisStateManager \<times> files \<Rightarrow> files" where
  "Redis_Save_store r = snd (snd r)"

text \<open>
  Whether \<^verbatim>\<open>processFile\<close> returns nil for a job: the download and the decompression
  succeed, no line makes \<^verbatim>\<open>ProcessContent\<close> fail, and the scanner ends without error.
\<close>

fun lines_ok :: "golib \<Rightarrow> LogFormat \<Rightarrow> bool \<Rightarrow> string list \<Rightarrow> bool" where
  "lines_ok lb format isFirstLine [] = True"
| "lines_ok lb format isFirstLine (line # rest) =
     (case ProcessContent lb format line isFirstLine of
        Inl err \<Rightarrow> False
      | Inr r \<Rightarrow> lines_ok lb format False rest)"

definition job_ok :: "golib \<Rightarrow> (string \<Rightarrow> s3_body) \<Rightarrow> LogFormat \<Rightarrow> FileJob \<Rightarrow> bool" where
  "job_ok lb get format job =
     (case get (S3Key job) of
        Scanned lines scanErr \<Rightarrow> lines_ok lb format True lines \<and> \<not> scanErr
      | GetFailed \<Rightarrow> False
      | NotGzip \<Rightarrow> False)"

text \<open>
  The lines of a job that reach the sender: those for which \<^verbatim>\<open>ProcessContent\<close> returns a
  line, up to the first line on which it fails; none when the download or the
  decompression fails. The bytes of a job are the lengths of these lines, added up.
\<close>

fun forwarded :: "golib \<Rightarrow> LogFormat \<Rightarrow> bool \<Rightarrow> string list \<Rightarrow> string list" where
  "forwarded lb format isFirstLine [] = []"
| "forwarded lb format isFirstLine (line # rest) =
     (case ProcessContent lb format line isFirstLine of
        Inl err \<Rightarrow> []
      | Inr None \<Rightarrow> forwarded lb format False rest
      | Inr (Some processedLine) \<Rightarrow> processedLine # forwarded lb format False rest)"

definition job_lines :: "golib \<Rightarrow> (string \<Rightarrow> s3_body) \<Rightarrow> LogFormat \<Rightarrow> FileJob \<Rightarrow> string list" where
  "job_lines lb get format job =
     (case get (S3Key job) of
        Scanned lines scanErr \<Rightarrow> forwarded lb format True lines
      | GetFailed \<Rightarrow> []
      | NotGzip \<Rightarrow> [])"

definition job_bytes :: "golib \<Rightarrow> (string \<Rightarrow> s3_body) \<Rightarrow> LogFormat \<Rightarrow> FileJob \<Rightarrow> nat" where
  "job_bytes lb get format job = sum_list (map length (job_lines lb get format job))"

section \<open>Concrete inputs\<close>

text \<open>
  The inputs at which the model is evaluated below. \<open>lib_failing\<close> is a library whose
  three calls fail every time; it stands for the library where the evaluation reaches none
  of the calls (the built-in formats on file names, lines that are not brace-delimited).
\<close>

definition lib_failing :: golib where
  "lib_failing = \<lparr>json_ok = (\<lambda>b. False), regexp_submatch = (\<lambda>re s. None),
                   time_parse = (\<lambda>layout v. None)\<rparr>"

definition csv_format :: FormatConfig where
  "csv_format = \<lparr>Name = ''generic_csv'', FilenamePattern = ''*.csv.gz'',
     TimestampRegex = ''^([0-9]+)'', TimestampFormat = ''unix'', ContentType = ''text/plain'',
     SkipHeaderLines = 1, FieldSeparator = '',''\<rparr>"

definition gz_format :: FormatConfig where
  "gz_format = \<lparr>Name = ''custom'', FilenamePattern = ''*.gz'',
     TimestampRegex = ''([0-9]+)'', TimestampFormat = ''unix'', ContentType = ''text/plain'',
     SkipHeaderLines = 0, FieldSeparator = '',''\<rparr>"

definition custom_registry :: Registry where
  "custom_registry = NewRegistryFromConfig [gz_format]"

text \<open>
  A bucket as an object store: one page with the objects under the prefix and, when
  \<^verbatim>\<open>StartAfter\<close> is set, after that key in byte order.
\<close>

fun bytes_less :: "string \<Rightarrow> string \<Rightarrow> bool" where
  "bytes_less [] [] = False"
| "bytes_less [] (y # ys) = True"
| "bytes_less (x # xs) [] = False"
| "bytes_less (x # xs) (y # ys) =
     ((of_char x :: nat) < of_char y \<or> (x = y \<and> bytes_less xs ys))"

definition bucket_store :: "s3_object list \<Rightarrow> s3_lister" where
  "bucket_store objs input =
     [Page (filter (\<lambda>obj. HasPrefix (Key obj) (Prefix input)
                        \<and> (case StartAfter input of None \<Rightarrow> True
                            | Some k \<Rightarrow> bytes_less k (Key obj))) objs)]"

definition builtin_orders :: "string \<Rightarrow> string list \<times> string list" where
  "builtin_orders key = ([''zscaler'', ''cisco_umbrella''], [''zscaler'', ''cisco_umbrella''])"

text \<open>Scenario 1 of the specification: the object, the scanner and the clock.\<close>

definition scenario_key :: string where
  "scenario_key = ''logs/year=2025/month=10/day=12/1760305292_56442_130_1.gz''"

definition scenario_env :: scan_env where
  "scenario_env = \<lparr>lib = lib_failing,
     s3_list = bucket_store [\<lparr>Key = scenario_key, ObjectSize = 4096\<rparr>],
     map_orders = builtin_orders\<rparr>"

definition scenario_scanner :: Scanner where
  "scenario_scanner =
     NewScanner ''s3://bucket'' ''logs/'' (60 * 1000000000) (Some ZscalerFormat) (Some NewRegistry)"

definition scenario_now :: int where
  "scenario_now = 1760305500 * 1000000000"

text \<open>
  A bucket whose key prefix starts with a timestamp, so that the zscaler format reads a
  timestamp from the whole key.
\<close>

definition stamped_key :: string where
  "stamped_key = ''1760305400_/year=2025/month=10/day=12/part-0001.gz''"

definition stamped_env :: scan_env where
  "stamped_env = \<lparr>lib = lib_failing,
     s3_list = bucket_store [\<lparr>Key = stamped_key, ObjectSize = 4096\<rparr>],
     map_orders = builtin_orders\<rparr>"

definition stamped_scanner :: Scanner where
  "stamped_scanner =
     NewScanner ''bucket'' ''1760305400_/'' (60 * 1000000000) (Some ZscalerFormat)
       (Some NewRegistry)"

text \<open>
  Scenario 3 of the specification: ten lines of twelve bytes with a byte bound of 100,
  then a tick of the flush timer.
\<close>

definition ten_lines :: "batcher_event list" where
  "ten_lines = replicate 10 (LineReceived ''abcdefghijkl'') @ [FlushTick]"

definition bytes_sender :: HTTPSender where
  "bytes_sender = \<lparr>endpoints = [''http://localhost:8080''], batchLines = 1000, batchBytes = 100,
                    workers = 1, bufferSize = 10\<rparr>"

definition first_batch :: Batch where
  "first_batch = \<lparr>Lines = replicate 8 ''abcdefghijkl'', BatchSize = 104\<rparr>"

definition idle_state :: batcher_state where
  "idle_state = \<lparr>currentBatch = emptyBatch, batchChan = [first_batch], returned = False\<rparr>"

definition seven_state :: batcher_state where
  "seven_state = \<lparr>currentBatch = \<lparr>Lines = replicate 7 ''abcdefghijkl'', BatchSize = 91\<rparr>,
                    batchChan = [], returned = False\<rparr>"

text \<open>A stand-in for the JSON encoder: the five fields as text, one to a line.\<close>

definition state_text :: "State \<Rightarrow> string" where
  "state_text s =
     ''last_processed_timestamp='' @ Itoa (sint (LastProcessedTimestamp s)) @ [CHR 0x0A]
     @ ''last_processed_file='' @ LastProcessedFile s @ [CHR 0x0A]
     @ ''total_files_processed='' @ Itoa (sint (TotalFilesProcessed s)) @ [CHR 0x0A]
     @ ''total_bytes_processed='' @ Itoa (sint (TotalBytesProcessed s)) @ [CHR 0x0A]
     @ ''last_updated='' @ Itoa (sint (LastUpdated s)) @ [CHR 0x0A]"

definition text_marshal :: "State \<Rightarrow> string option" where
  "text_marshal s = Some (state_text s)"

definition one_file_state :: State where
  "one_file_state = \<lparr>LastProcessedTimestamp = 1760305292, LastProcessedFile = ''a.gz'',
     TotalFilesProcessed = 1, TotalBytesProcessed = 10, LastUpdated = 1760305500\<rparr>"

definition clean_manager :: Manager where
  "clean_manager = \<lparr>filePath = ''state.json'', state = one_file_state, dirty = False\<rparr>"

definition clean_redis :: RedisStateManager where
  "clean_redis = \<lparr>keyPrefix = ''s3-streamer'', rstate = one_file_state, rdirty = False\<rparr>"

definition dirty_manager :: Manager where
  "dirty_manager = \<lparr>filePath = ''state.json'', state = one_file_state, dirty = True\<rparr>"

definition dirty_redis :: RedisStateManager where
  "dirty_redis = \<lparr>keyPrefix = ''s3-streamer'', rstate = one_file_state, rdirty = True\<rparr>"

text \<open>
  A stand-in for \<^verbatim>\<open>url.Parse\<close>: the scheme of an \<^verbatim>\<open>http://\<close> or \<^verbatim>\<open>https://\<close> URL, an
  error for anything else.
\<close>

definition scheme_of :: "string \<Rightarrow> string + string" where
  "scheme_of s = (if HasPrefix s ''http://'' then Inr ''http''
                  else if HasPrefix s ''https://'' then Inr ''https''
                  else Inl ''unsupported URL'')"

text \<open>
  Three configurations that pass validation: one with a configured format that leaves the
  optional fields empty and with Redis enabled, one with the legacy \<^verbatim>\<open>log_format\<close> only,
  one with neither.
\<close>

definition bare_format :: FormatConfig where
  "bare_format = \<lparr>Name = ''custom'', FilenamePattern = ''*.gz'',
     TimestampRegex = ''([0-9]+)'', TimestampFormat = [], ContentType = [],
     SkipHeaderLines = 0, FieldSeparator = []\<rparr>"

definition base_config :: Config where
  "base_config = \<lparr>S3_Bucket = ''logs-bucket'', S3_Region = ''us-east-1'',
     HTTP_Endpoints = [''http://localhost:8080''], HTTP_BatchLines = 1000,
     HTTP_BatchBytes = 1048576, HTTP_FlushInterval = 1000000000, HTTP_Workers = 10,
     HTTP_BufferSize = 10000, Processing_WorkerCount = 4,
     Processing_ScanInterval = 15000000000, Processing_DelayWindow = 60000000000,
     Processing_LogFormats = [], Processing_DefaultFormat = [], Processing_LogFormat = [],
     State_Redis = \<lparr>Enabled = False, Host = [], Port = 0, Password = [], Database = 0,
                    RedisKeyPrefix = []\<rparr>,
     Logging_Level = ''info'', Logging_Format = ''json'',
     OTLP_Enabled = False, OTLP_Endpoint = [], OTLP_ExportInterval = 0, OTLP_ServiceName = []\<rparr>"

definition formats_config :: Config where
  "formats_config = base_config\<lparr>Processing_LogFormats := [bare_format],
     State_Redis := \<lparr>Enabled = True, Host = [], Port = 0, Password = [], Database = 0,
                     RedisKeyPrefix = []\<rparr>\<rparr>"

definition legacy_config :: Config where
  "legacy_config = base_config\<lparr>Processing_LogFormat := ''cisco_umbrella''\<rparr>"


text \<open>
  Scenario 2 of the specification: a cisco_umbrella object of a header and three lines, a
  pool with an empty watermark, and a second job whose download fails.
\<close>

definition cisco_lines :: "string list" where
  "cisco_lines = [''timestamp,domain,action'', ''A'', ''B'', ''C'']"

definition cisco_job :: FileJob where
  "cisco_job = \<lparr>S3Key = ''2025-01-15-10-30-0001.csv.gz'', Timestamp = 1736937000, Size = 64\<rparr>"

definition cisco_get :: "string \<Rightarrow> s3_body" where
  "cisco_get key = (if key = ''2025-01-15-10-30-0001.csv.gz'' then Scanned cisco_lines False
                    else GetFailed)"

definition zero_state :: State where
  "zero_state = \<lparr>LastProcessedTimestamp = 0, LastProcessedFile = [], TotalFilesProcessed = 0,
     TotalBytesProcessed = 0, LastUpdated = 0\<rparr>"

definition cisco_pool :: HTTPPool where
  "cisco_pool = \<lparr>filesProcessed = 0, bytesProcessed = 0, errors = 0,
     stateManager = \<lparr>filePath = ''state.json'', state = zero_state, dirty = False\<rparr>,
     lineChan = [], poolFormat = Some CiscoUmbrellaFormat\<rparr>"

definition missing_job :: FileJob where
  "missing_job = \<lparr>S3Key = ''2025-01-15-10-31-0002.csv.gz'', Timestamp = 1736937060, Size = 64\<rparr>"

section \<open>Properties of the watermark update\<close>

lemma UpdateProgress_timestamp:
  "sint (LastProcessedTimestamp (state (UpdateProgress now m ts path n)))
     = max (sint (LastProcessedTimestamp (state m))) (sint ts)"
  by (simp add: UpdateProgress_def Let_def word_sless_alt max_def)

lemma UpdateProgress_fields:
  "LastProcessedFile (state (UpdateProgress now m ts path n)) = path"
  "TotalFilesProcessed (state (UpdateProgress now m ts path n)) = TotalFilesProcessed (state m) + 1"
  "TotalBytesProcessed (state (UpdateProgress now m ts path n)) = TotalBytesProcessed (state m) + n"
  "dirty (UpdateProgress now m ts path n)"
  by (simp_all add: UpdateProgress_def Let_def)

lemma Redis_UpdateProgress_timestamp:
  "sint (LastProcessedTimestamp (rstate (Redis_UpdateProgress now m ts path n)))
     = max (sint (LastProcessedTimestamp (rstate m))) (sint ts)"
  by (simp add: Redis_UpdateProgress_def Let_def word_sless_alt max_def)

lemma Redis_UpdateProgress_fields:
  "LastProcessedFile (rstate (Redis_UpdateProgress now m ts path n)) = path"
  "TotalFilesProcessed (rstate (Redis_UpdateProgress now m ts path n))
     = TotalFilesProcessed (rstate m) + 1"
  "TotalBytesProcessed (rstate (Redis_UpdateProgress now m ts path n))
     = TotalBytesProcessed (rstate m) + n"
  "rdirty (Redis_UpdateProgress now m ts path n)"
  by (simp_all add: Redis_UpdateProgress_def Let_def)

lemma UpdateProgress_all_mono:
  "sint (LastProcessedTimestamp (state m))
     \<le> sint (LastProcessedTimestamp (state (UpdateProgress_all m cs)))"
proof (induction cs arbitrary: m)
  case Nil
  show ?case by simp
next
  case (Cons c cs)
  obtain now ts path n where c: "c = (now, ts, path, n)"
    by (cases c) auto
  have "sint (LastProcessedTimestamp (state m))
          \<le> sint (LastProcessedTimestamp (state (UpdateProgress now m ts path n)))"
    by (simp add: UpdateProgress_timestamp)
  also have "\<dots> \<le> sint (LastProcessedTimestamp
                 (state (UpdateProgress_all (UpdateProgress now m ts path n) cs)))"
    by (rule Cons.IH)
  finally show ?case by (simp add: c)
qed

lemma Redis_UpdateProgress_all_mono:
  "sint (LastProcessedTimestamp (rstate m))
     \<le> sint (LastProcessedTimestamp (rstate (Redis_UpdateProgress_all m cs)))"
proof (induction cs arbitrary: m)
  case Nil
  show ?case by simp
next
  case (Cons c cs)
  obtain now ts path n where c: "c = (now, ts, path, n)"
    by (cases c) auto
  have "sint (LastProcessedTimestamp (rstate m))
          \<le> sint (LastProcessedTimestamp (rstate (Redis_UpdateProgress now m ts path n)))"
    by (simp add: Redis_UpdateProgress_timestamp)
  also have "\<dots> \<le> sint (LastProcessedTimestamp
                 (rstate (Redis_UpdateProgress_all (Redis_UpdateProgress now m ts path n) cs)))"
    by (rule Cons.IH)
  finally show ?case by (simp add: c)
qed

text \<open>
  Claim C2. After \<^verbatim>\<open>UpdateProgress(ts, key, bytes)\<close> on the local-file backend and on the
  Redis backend, the stored timestamp is the (signed) maximum of the previous one and
  \<open>ts\<close>, the stored file is \<open>key\<close> whatever the timestamps are, the files counter has
  grown by one and the bytes counter by \<open>bytes\<close> (in \<^verbatim>\<open>int64\<close> arithmetic), and the state
  is dirty; over any sequence of calls the stored timestamp never decreases.
\<close>

theorem C2_update_progress:
  "sint (LastProcessedTimestamp (state (UpdateProgress now m ts key n)))
     = max (sint (LastProcessedTimestamp (state m))) (sint ts)
   \<and> LastProcessedFile (state (UpdateProgress now m ts key n)) = key
   \<and> TotalFilesProcessed (state (UpdateProgress now m ts key n))
       = TotalFilesProcessed (state m) + 1
   \<and> TotalBytesProcessed (state (UpdateProgress now m ts key n))
       = TotalBytesProcessed (state m) + n
   \<and> dirty (UpdateProgress now m ts key n)
   \<and> sint (LastProcessedTimestamp (rstate (Redis_UpdateProgress now r ts key n)))
       = max (sint (LastProcessedTimestamp (rstate r))) (sint ts)
   \<and> LastProcessedFile (rstate (Redis_UpdateProgress now r ts key n)) = key
   \<and> TotalFilesProcessed (rstate (Redis_UpdateProgress now r ts key n))
       = TotalFilesProcessed (rstate r) + 1
   \<and> TotalBytesProcessed (rstate (Redis_UpdateProgress now r ts key n))
       = TotalBytesProcessed (rstate r) + n
   \<and> rdirty (Redis_UpdateProgress now r ts key n)
   \<and> sint (LastProcessedTimestamp (state m))
       \<le> sint (LastProcessedTimestamp (state (UpdateProgress_all m cs)))
   \<and> sint (LastProcessedTimestamp (rstate r))
       \<le> sint (LastProcessedTimestamp (rstate (Redis_UpdateProgress_all r cs)))"
  by (simp add: UpdateProgress_timestamp UpdateProgress_fields Redis_UpdateProgress_timestamp
      Redis_UpdateProgress_fields UpdateProgress_all_mono Redis_UpdateProgress_all_mono)

section \<open>Line filtering\<close>

lemma TrimSpace_blank3: "TrimSpace ''   '' = []"
  by code_simp

text \<open>
  Claim C8, as stated, fails: the zscaler format forwards a line of three blanks. The
  line is made of white space only, and \<^verbatim>\<open>ProcessContent\<close> returns it.
\<close>

theorem C8_counterexample:
  "TrimSpace ''   '' = []
   \<and> ProcessContent lib_failing ZscalerFormat ''   '' False = Inr (Some ''   '')"
  by (simp add: TrimSpace_blank3 ZscalerFormat_ProcessContent_def braced_def HasPrefix_def)

text \<open>The library plays no part in it: the same holds with every library.\<close>

lemma zscaler_blank_every_lib:
  "ProcessContent lb ZscalerFormat ''   '' isFirstLine = Inr (Some ''   '')"
  by (simp add: TrimSpace_blank3 ZscalerFormat_ProcessContent_def braced_def HasPrefix_def)

text \<open>
  Claim C8, amended. A line is blank when \<^verbatim>\<open>strings.TrimSpace\<close> leaves nothing of it. The
  cisco_umbrella format drops the first line of a file and every blank line. A generic
  format whose header_skip is at most 1 drops the first line when header_skip is 1, and
  every blank line. The zscaler format drops the lines of length zero only, and fails on
  a line that is brace-delimited once trimmed and does not decode as JSON. Every other
  line is returned as it came.
\<close>

theorem C8_filter_line:
  "ProcessContent lb CiscoUmbrellaFormat line isFirstLine =
     (if isFirstLine \<or> TrimSpace line = [] then Inr None else Inr (Some line))
   \<and> (SkipHeaderLines config \<le> 1 \<longrightarrow>
        ProcessContent lb (GenericFormat config) line isFirstLine =
          (if (isFirstLine \<and> SkipHeaderLines config = 1) \<or> TrimSpace line = [] then Inr None
           else Inr (Some line)))
   \<and> ProcessContent lb ZscalerFormat line isFirstLine =
       (if line = [] then Inr None
        else if braced (TrimSpace line) \<and> \<not> json_ok lb line then Inl ErrInvalidJSON
        else Inr (Some line))"
  by (auto simp: CiscoUmbrellaFormat_ProcessContent_def GenericFormat_ProcessContent_def
      ZscalerFormat_ProcessContent_def)

text \<open>
  The witness of C8: a generic CSV format with header_skip 1 drops the header line and
  forwards a data line.
\<close>

theorem C8_filter_line_witness:
  "SkipHeaderLines csv_format \<le> 1
   \<and> ProcessContent lib_failing (GenericFormat csv_format) ''timestamp,domain,action'' True
       = Inr None
   \<and> ProcessContent lib_failing (GenericFormat csv_format) ''A'' False = Inr (Some ''A'')"
proof -
  have h: "SkipHeaderLines csv_format \<le> 1" by (simp add: csv_format_def)
  have a: "TrimSpace ''A'' \<noteq> []" by code_simp
  from C8_filter_line [of lib_failing "''timestamp,domain,action''" True csv_format] h
  have 1: "ProcessContent lib_failing (GenericFormat csv_format) ''timestamp,domain,action'' True
            = Inr None"
    by (simp add: csv_format_def)
  from C8_filter_line [of lib_failing "''A''" False csv_format] h a
  have 2: "ProcessContent lib_failing (GenericFormat csv_format) ''A'' False = Inr (Some ''A'')"
    by simp
  from h 1 2 show ?thesis by simp
qed

section \<open>Format detection\<close>

lemma first_match_Some:
  "first_match r P ks = Some f \<Longrightarrow> \<exists>k \<in> set ks. r k = Some f \<and> P f"
  by (induction ks) (auto split: option.splits if_splits)

lemma first_match_None:
  "first_match r P ks = None \<longleftrightarrow> (\<forall>k \<in> set ks. \<forall>f. r k = Some f \<longrightarrow> \<not> P f)"
  by (induction ks) (auto split: option.splits if_splits)

lemma first_match_ran:
  assumes "iteration_order r ks"
  shows "first_match r P ks = None \<longleftrightarrow> (\<forall>f \<in> ran r. \<not> P f)"
proof -
  from assms have "set ks = dom r" by (simp add: iteration_order_def)
  then show ?thesis
    unfolding first_match_None by (auto simp: ran_def dom_def) 
qed

lemma first_match_in_ran:
  "first_match r P ks = Some f \<Longrightarrow> f \<in> ran r \<and> P f"
  by (auto dest!: first_match_Some simp: ran_def)

lemma first_match_unique:
  assumes o1: "iteration_order r ks" and o2: "iteration_order r ks'"
    and uniq: "\<forall>f \<in> ran r. \<forall>g \<in> ran r. P f \<and> P g \<longrightarrow> f = g"
  shows "first_match r P ks = first_match r P ks'"
proof (cases "first_match r P ks")
  case None
  with first_match_ran [OF o1, of P] first_match_ran [OF o2, of P] show ?thesis by simp
next
  case (Some f)
  then have f: "f \<in> ran r" "P f" by (auto dest: first_match_in_ran)
  with first_match_ran [OF o2, of P] obtain g where g: "first_match r P ks' = Some g"
    by (cases "first_match r P ks'") auto
  then have "g \<in> ran r" "P g" by (auto dest: first_match_in_ran)
  with f uniq have "f = g" by blast
  with Some g show ?thesis by simp
qed

lemma builtins_present:
  "NewRegistryFromConfig cfgs ''zscaler'' = Some ZscalerFormat"
  "NewRegistryFromConfig cfgs ''cisco_umbrella'' = Some CiscoUmbrellaFormat"
  by (simp_all add: NewRegistryFromConfig_def Register_def)

text \<open>
  Claim C4, amended. With \<open>order1\<close> and \<open>order2\<close> any two orders in which the runtime
  ranges over the registry: when some registered format matches the file name,
  \<^verbatim>\<open>DetectFormat\<close> returns a registered format that matches it; otherwise, when some
  registered format matches the sample, a registered format that matches the sample;
  otherwise the entry \<^verbatim>\<open>"zscaler"\<close> of the registry. When at most one registered format
  matches the name and at most one matches the sample, every pair of orders gives the same
  result. \<^verbatim>\<open>NewRegistryFromConfig\<close> registers the two built-in formats under their names
  whatever the configured formats are.
\<close>

theorem C4_detect:
  assumes "iteration_order r order1" and "iteration_order r order2"
  shows "((\<exists>f \<in> ran r. DetectFromFilename f filename) \<longrightarrow>
            (\<exists>f \<in> ran r. DetectFromFilename f filename
               \<and> DetectFormat lb r order1 order2 filename sample = Some f))
       \<and> (\<not> (\<exists>f \<in> ran r. DetectFromFilename f filename)
            \<and> (\<exists>f \<in> ran r. DetectFromContent lb f sample) \<longrightarrow>
            (\<exists>f \<in> ran r. DetectFromContent lb f sample
               \<and> DetectFormat lb r order1 order2 filename sample = Some f))
       \<and> (\<not> (\<exists>f \<in> ran r. DetectFromFilename f filename)
            \<and> \<not> (\<exists>f \<in> ran r. DetectFromContent lb f sample) \<longrightarrow>
            DetectFormat lb r order1 order2 filename sample = r ''zscaler'')
       \<and> (iteration_order r order1' \<and> iteration_order r order2'
            \<and> (\<forall>f \<in> ran r. \<forall>g \<in> ran r.
                  DetectFromFilename f filename \<and> DetectFromFilename g filename \<longrightarrow> f = g)
            \<and> (\<forall>f \<in> ran r. \<forall>g \<in> ran r.
                  DetectFromContent lb f sample \<and> DetectFromContent lb g sample \<longrightarrow> f = g)
            \<longrightarrow> DetectFormat lb r order1' order2' filename sample
                  = DetectFormat lb r order1 order2 filename sample)
       \<and> NewRegistryFromConfig cfgs ''zscaler'' = Some ZscalerFormat
       \<and> NewRegistryFromConfig cfgs ''cisco_umbrella'' = Some CiscoUmbrellaFormat"
proof -
  let ?F = "\<lambda>f. DetectFromFilename f filename"
  let ?C = "\<lambda>f. DetectFromContent lb f sample"
  have a: "(\<exists>f \<in> ran r. ?F f) \<longrightarrow>
            (\<exists>f \<in> ran r. ?F f \<and> DetectFormat lb r order1 order2 filename sample = Some f)"
  proof
    assume "\<exists>f \<in> ran r. ?F f"
    with first_match_ran [OF assms(1), of ?F]
    obtain f where f: "first_match r ?F order1 = Some f"
      by (cases "first_match r ?F order1") auto
    then have "f \<in> ran r \<and> ?F f" by (rule first_match_in_ran)
    with f show "\<exists>f \<in> ran r. ?F f \<and> DetectFormat lb r order1 order2 filename sample = Some f"
      by (auto simp: DetectFormat_def)
  qed
  have b: "\<not> (\<exists>f \<in> ran r. ?F f) \<and> (\<exists>f \<in> ran r. ?C f) \<longrightarrow>
            (\<exists>f \<in> ran r. ?C f \<and> DetectFormat lb r order1 order2 filename sample = Some f)"
  proof
    assume h: "\<not> (\<exists>f \<in> ran r. ?F f) \<and> (\<exists>f \<in> ran r. ?C f)"
    with first_match_ran [OF assms(1), of ?F] have n: "first_match r ?F order1 = None" by simp
    from h first_match_ran [OF assms(2), of ?C]
    obtain f where f: "first_match r ?C order2 = Some f"
      by (cases "first_match r ?C order2") auto
    then have "f \<in> ran r \<and> ?C f" by (rule first_match_in_ran)
    with f n show "\<exists>f \<in> ran r. ?C f \<and> DetectFormat lb r order1 order2 filename sample = Some f"
      by (auto simp: DetectFormat_def)
  qed
  have c: "\<not> (\<exists>f \<in> ran r. ?F f) \<and> \<not> (\<exists>f \<in> ran r. ?C f) \<longrightarrow>
            DetectFormat lb r order1 order2 filename sample = r ''zscaler''"
    using first_match_ran [OF assms(1), of ?F] first_match_ran [OF assms(2), of ?C]
    by (auto simp: DetectFormat_def)
  have d: "iteration_order r order1' \<and> iteration_order r order2'
            \<and> (\<forall>f \<in> ran r. \<forall>g \<in> ran r. ?F f \<and> ?F g \<longrightarrow> f = g)
            \<and> (\<forall>f \<in> ran r. \<forall>g \<in> ran r. ?C f \<and> ?C g \<longrightarrow> f = g)
            \<longrightarrow> DetectFormat lb r order1' order2' filename sample
                  = DetectFormat lb r order1 order2 filename sample"
  proof
    assume h: "iteration_order r order1' \<and> iteration_order r order2'
            \<and> (\<forall>f \<in> ran r. \<forall>g \<in> ran r. ?F f \<and> ?F g \<longrightarrow> f = g)
            \<and> (\<forall>f \<in> ran r. \<forall>g \<in> ran r. ?C f \<and> ?C g \<longrightarrow> f = g)"
    then have e1: "first_match r ?F order1' = first_match r ?F order1"
      using assms(1) by (intro first_match_unique) auto
    from h have e2: "first_match r ?C order2' = first_match r ?C order2"
      using assms(2) by (intro first_match_unique) auto
    show "DetectFormat lb r order1' order2' filename sample
                  = DetectFormat lb r order1 order2 filename sample"
      unfolding DetectFormat_def e1 e2 by (rule refl)
  qed
  from a b c d builtins_present show ?thesis by blast
qed

lemma custom_registry_eq:
  "custom_registry = [''custom'' \<mapsto> GenericFormat gz_format, ''zscaler'' \<mapsto> ZscalerFormat,
                      ''cisco_umbrella'' \<mapsto> CiscoUmbrellaFormat]"
  by (simp add: custom_registry_def NewRegistryFromConfig_def Register_def gz_format_def
      NewGenericFormat_def)

lemma custom_registry_ran:
  "ran custom_registry = {GenericFormat gz_format, ZscalerFormat, CiscoUmbrellaFormat}"
proof -
  have 1: "ran [''custom'' \<mapsto> GenericFormat gz_format] = {GenericFormat gz_format}"
    by simp
  have 2: "ran [''custom'' \<mapsto> GenericFormat gz_format, ''zscaler'' \<mapsto> ZscalerFormat]
            = {ZscalerFormat, GenericFormat gz_format}"
    using 1 by (subst ran_map_upd) simp_all
  have 3: "ran [''custom'' \<mapsto> GenericFormat gz_format, ''zscaler'' \<mapsto> ZscalerFormat,
                ''cisco_umbrella'' \<mapsto> CiscoUmbrellaFormat]
            = {CiscoUmbrellaFormat, ZscalerFormat, GenericFormat gz_format}"
    using 2 by (subst ran_map_upd) simp_all
  show ?thesis unfolding custom_registry_eq 3 by blast
qed

lemma custom_registry_dom: "dom custom_registry = {''custom'', ''zscaler'', ''cisco_umbrella''}"
  by (auto simp: custom_registry_def NewRegistryFromConfig_def Register_def gz_format_def
      NewGenericFormat_def)

lemma zs_name: "ZscalerFormat_DetectFromFilename ''1705315200_12345_67890_001.gz''"
  by code_simp

lemma gz_match: "Match ''*.gz'' ''1705315200_12345_67890_001.gz'' = Some True"
  by code_simp

text \<open>
  Claim C4, as stated, fails. The registry of one configured format with the pattern
  \<^verbatim>\<open>*.gz\<close> has three keys; for a zscaler file name ending in \<^verbatim>\<open>.gz\<close> both the configured
  format and the built-in zscaler format match. Ranging with the configured format first
  returns the configured format, ranging with zscaler first returns zscaler: two runs on
  the same inputs differ, and the order of registration decides nothing.
\<close>

theorem C4_counterexample:
  "iteration_order custom_registry [''custom'', ''zscaler'', ''cisco_umbrella'']
   \<and> iteration_order custom_registry [''zscaler'', ''custom'', ''cisco_umbrella'']
   \<and> DetectFormat lib_failing custom_registry [''custom'', ''zscaler'', ''cisco_umbrella'']
        [''custom'', ''zscaler'', ''cisco_umbrella''] ''1705315200_12345_67890_001.gz'' []
      = Some (GenericFormat gz_format)
   \<and> DetectFormat lib_failing custom_registry [''zscaler'', ''custom'', ''cisco_umbrella'']
        [''zscaler'', ''custom'', ''cisco_umbrella''] ''1705315200_12345_67890_001.gz'' []
      = Some ZscalerFormat"
proof -
  have r: "custom_registry ''custom'' = Some (GenericFormat gz_format)"
    "custom_registry ''zscaler'' = Some ZscalerFormat"
    by (simp_all add: custom_registry_def NewRegistryFromConfig_def Register_def gz_format_def
        NewGenericFormat_def)
  have g: "GenericFormat_DetectFromFilename gz_format ''1705315200_12345_67890_001.gz''"
    by (simp add: GenericFormat_DetectFromFilename_def gz_format_def gz_match)
  show ?thesis
    by (auto simp: iteration_order_def custom_registry_dom DetectFormat_def r g zs_name)
qed

text \<open>The same with every library, second order and sample.\<close>

lemma custom_registry_every_lib:
  "DetectFormat lb custom_registry [''custom'', ''zscaler'', ''cisco_umbrella''] order2
      ''1705315200_12345_67890_001.gz'' sample = Some (GenericFormat gz_format)"
  "DetectFormat lb custom_registry [''zscaler'', ''custom'', ''cisco_umbrella''] order2
      ''1705315200_12345_67890_001.gz'' sample = Some ZscalerFormat"
proof -
  have r: "custom_registry ''custom'' = Some (GenericFormat gz_format)"
    "custom_registry ''zscaler'' = Some ZscalerFormat"
    by (simp_all add: custom_registry_eq)
  have g: "GenericFormat_DetectFromFilename gz_format ''1705315200_12345_67890_001.gz''"
    by (simp add: GenericFormat_DetectFromFilename_def gz_format_def gz_match)
  show "DetectFormat lb custom_registry [''custom'', ''zscaler'', ''cisco_umbrella''] order2
      ''1705315200_12345_67890_001.gz'' sample = Some (GenericFormat gz_format)"
    by (simp add: DetectFormat_def r g)
  show "DetectFormat lb custom_registry [''zscaler'', ''custom'', ''cisco_umbrella''] order2
      ''1705315200_12345_67890_001.gz'' sample = Some ZscalerFormat"
    by (simp add: DetectFormat_def r zs_name)
qed

lemma plain_name:
  "ZscalerFormat_DetectFromFilename ''1705315200_12345_67890_001''"
  "\<not> CiscoUmbrellaFormat_DetectFromFilename ''1705315200_12345_67890_001''"
  "\<not> GenericFormat_DetectFromFilename gz_format ''1705315200_12345_67890_001''"
  by code_simp+

lemma empty_sample:
  "\<not> DetectFromContent lb f []"
  by (cases f)
     (simp_all add: ZscalerFormat_DetectFromContent_def CiscoUmbrellaFormat_DetectFromContent_def
       GenericFormat_DetectFromContent_def)

text \<open>
  The witness of C4: in the registry of the configured format \<^verbatim>\<open>*.gz\<close>, a zscaler file
  name without the \<^verbatim>\<open>.gz\<close> ending is matched by the zscaler format alone, and two
  different orders both return it.
\<close>

theorem C4_detect_witness:
  "iteration_order custom_registry [''custom'', ''zscaler'', ''cisco_umbrella'']
   \<and> iteration_order custom_registry [''cisco_umbrella'', ''zscaler'', ''custom'']
   \<and> (\<exists>f \<in> ran custom_registry. DetectFromFilename f ''1705315200_12345_67890_001'')
   \<and> DetectFormat lib_failing custom_registry [''custom'', ''zscaler'', ''cisco_umbrella'']
        [''custom'', ''zscaler'', ''cisco_umbrella''] ''1705315200_12345_67890_001'' []
      = Some ZscalerFormat
   \<and> DetectFormat lib_failing custom_registry [''cisco_umbrella'', ''zscaler'', ''custom'']
        [''cisco_umbrella'', ''zscaler'', ''custom''] ''1705315200_12345_67890_001'' []
      = Some ZscalerFormat"
proof -
  let ?o1 = "[''custom'', ''zscaler'', ''cisco_umbrella'']"
  let ?o2 = "[''cisco_umbrella'', ''zscaler'', ''custom'']"
  let ?n = "''1705315200_12345_67890_001''"
  have o1: "iteration_order custom_registry ?o1"
    by (auto simp: iteration_order_def custom_registry_dom)
  have o2: "iteration_order custom_registry ?o2"
    by (auto simp: iteration_order_def custom_registry_dom)
  have ex: "\<exists>f \<in> ran custom_registry. DetectFromFilename f ?n"
    by (simp add: custom_registry_ran plain_name)
  have u1: "\<forall>f \<in> ran custom_registry. \<forall>g \<in> ran custom_registry.
              DetectFromFilename f ?n \<and> DetectFromFilename g ?n \<longrightarrow> f = g"
    by (simp add: custom_registry_ran plain_name)
  have u2: "\<forall>f \<in> ran custom_registry. \<forall>g \<in> ran custom_registry.
              DetectFromContent lib_failing f [] \<and> DetectFromContent lib_failing g [] \<longrightarrow> f = g"
    by (simp add: empty_sample)
  note t = C4_detect [OF o1 o1, of ?n lib_failing "[]" ?o2 ?o2]
  from t ex obtain f where f: "f \<in> ran custom_registry" "DetectFromFilename f ?n"
    "DetectFormat lib_failing custom_registry ?o1 ?o1 ?n [] = Some f"
    by blast
  from f(1,2) have "f = ZscalerFormat"
    by (auto simp: custom_registry_ran plain_name)
  with f(3) have a: "DetectFormat lib_failing custom_registry ?o1 ?o1 ?n [] = Some ZscalerFormat"
    by simp
  from t o2 u1 u2 have "DetectFormat lib_failing custom_registry ?o2 ?o2 ?n []
      = DetectFormat lib_failing custom_registry ?o1 ?o1 ?n []"
    by blast
  with a o1 o2 ex show ?thesis by simp
qed

section \<open>Scan window\<close>

lemma list_object_window:
  "in_window lo hi jobs \<Longrightarrow> in_window lo hi (list_object env s lo hi jobs obj)"
  by (auto simp: in_window_def list_object_def split: sum.splits option.splits)

lemma foldl_list_object_window:
  "in_window lo hi jobs \<Longrightarrow> in_window lo hi (foldl (list_object env s lo hi) jobs objs)"
  by (induction objs arbitrary: jobs) (simp_all add: list_object_window)

lemma list_pages_window:
  "in_window lo hi jobs \<Longrightarrow> list_pages env s lo hi jobs pages = Inr out \<Longrightarrow> in_window lo hi out"
proof (induction pages arbitrary: jobs)
  case Nil
  then show ?case by simp
next
  case (Cons p pages)
  show ?case
  proof (cases p)
    case (Page contents)
    with Cons.prems
    have "list_pages env s lo hi (foldl (list_object env s lo hi) jobs contents) pages = Inr out"
      by simp
    moreover have "in_window lo hi (foldl (list_object env s lo hi) jobs contents)"
      using Cons.prems(1) by (rule foldl_list_object_window)
    ultimately show ?thesis by (rule Cons.IH [rotated])
  next
    case PageError
    with Cons.prems show ?thesis by simp
  qed
qed

lemma listFiles_window:
  "listFiles env s pfx lpf lo hi = Inr out \<Longrightarrow> in_window lo hi out"
  unfolding listFiles_def Let_def
  by (rule list_pages_window [of lo hi "[]"]) (simp_all add: in_window_def)

lemma scan_prefixes_window:
  "in_window lo hi jobs \<Longrightarrow> scan_prefixes env s lpf lo hi jobs pfxs = Inr out
     \<Longrightarrow> in_window lo hi out"
proof (induction pfxs arbitrary: jobs)
  case Nil
  then show ?case by simp
next
  case (Cons pfx pfxs)
  from Cons.prems(2) obtain files where f: "listFiles env s pfx lpf lo hi = Inr files"
    and r: "scan_prefixes env s lpf lo hi (jobs @ files) pfxs = Inr out"
    by (auto split: sum.splits)
  from f have "in_window lo hi files" by (rule listFiles_window)
  with Cons.prems(1) have "in_window lo hi (jobs @ files)" by (auto simp: in_window_def)
  then show ?case using r by (rule Cons.IH)
qed

lemma Scan_window:
  "Scan env s now fromTimestamp lpf = Inr jobs \<Longrightarrow>
   in_window (scan_from s now fromTimestamp) (scan_end s now) jobs"
  unfolding Scan_def Let_def
  by (rule scan_prefixes_window [of _ _ "[]"]) (simp_all add: in_window_def)

lemma scan_from_cold: "scan_from s now 0 = scan_end s now - 60"
proof -
  have "(now - delayWindow s + 1000000000 * (- 60)) div 1000000000
        = - 60 + (now - delayWindow s) div 1000000000"
    by (rule div_mult_self2) simp
  then show ?thesis by (simp add: scan_from_def scan_end_def)
qed

lemma stamped_scan_cold:
  "Scan stamped_env stamped_scanner scenario_now 0 []
     = Inr [\<lparr>S3Key = stamped_key, Timestamp = 1760305400, Size = 4096\<rparr>]"
  by code_simp

lemma stamped_scan_warm:
  "Scan stamped_env stamped_scanner scenario_now 1760305390 []
     = Inr [\<lparr>S3Key = stamped_key, Timestamp = 1760305400, Size = 4096\<rparr>]"
  by code_simp

lemma stamped_delay: "delayWindow stamped_scanner = 60 * 1000000000"
  by (simp add: stamped_scanner_def NewScanner_def)

text \<open>
  Claim C6. A scan that completes returns only jobs whose timestamp lies between
  \<open>lower\<close> and \<open>upper\<close>, where \<open>upper\<close> is the clock reading at the start of the scan
  minus the delay window, in whole epoch seconds, and \<open>lower\<close> is the watermark passed
  in, or \<open>upper - 60\<close> when the watermark is zero.
\<close>

theorem C6_scan_window:
  assumes "Scan env s now fromTimestamp lastProcessedFile = Inr jobs"
  shows "\<forall>j \<in> set jobs.
           (if fromTimestamp = 0 then (now - delayWindow s) div 1000000000 - 60 else fromTimestamp)
             \<le> Timestamp j
           \<and> Timestamp j \<le> (now - delayWindow s) div 1000000000"
proof -
  from assms have "in_window (scan_from s now fromTimestamp) (scan_end s now) jobs"
    by (rule Scan_window)
  moreover have "scan_from s now fromTimestamp
      = (if fromTimestamp = 0 then (now - delayWindow s) div 1000000000 - 60 else fromTimestamp)"
    using scan_from_cold [of s now] by (simp add: scan_from_def scan_end_def)
  ultimately show ?thesis by (simp add: in_window_def scan_end_def)
qed

text \<open>
  The witness of C6: a warm scan from the watermark 1760305390 at the clock reading
  1760305500 with a delay of 60 s returns one job, and its timestamp 1760305400 is in the
  window from 1760305390 to 1760305440.
\<close>

theorem C6_scan_window_witness:
  "Scan stamped_env stamped_scanner scenario_now 1760305390 []
     = Inr [\<lparr>S3Key = stamped_key, Timestamp = 1760305400, Size = 4096\<rparr>]
   \<and> (1760305390::int) \<le> 1760305400
   \<and> (1760305400::int) \<le> (scenario_now - delayWindow stamped_scanner) div 1000000000"
  using C6_scan_window [OF stamped_scan_warm] stamped_scan_warm by simp

section \<open>Scenario 1\<close>

lemma scenario_basename: "path_Base scenario_key = ''1760305292_56442_130_1.gz''"
  by code_simp

lemma basename_timestamp: "ZscalerFormat_ParseTimestamp ''1760305292_56442_130_1.gz'' = Inr 1760305292"
  by code_simp

text \<open>
  Claim C3, as stated, fails: in scenario 1 the scan completes and returns no job.
\<close>

theorem C3_counterexample:
  "Scan scenario_env scenario_scanner scenario_now 0 [] = Inr []"
  by code_simp

text \<open>
  Besides the window, the listing hands the whole key to the format, which finds no
  number before the first underscore: the object is skipped in every window, while
  \<^verbatim>\<open>parseTimestampFromKey\<close>, which the scanner does not call, reads the timestamp off the
  base name.
\<close>

lemma scenario_key_unparsed: "ZscalerFormat_ParseTimestamp scenario_key = Inl ErrParseTimestamp"
  by code_simp

lemma scenario_object_skipped:
  "logFormat s = Some ZscalerFormat \<Longrightarrow>
   list_object env s lo hi jobs \<lparr>Key = scenario_key, ObjectSize = n\<rparr> = jobs"
  by (simp add: list_object_def scenario_key_unparsed)

lemma scenario_key_by_base: "parseTimestampFromKey scenario_key = Inr 1760305292"
  by code_simp

text \<open>
  Claim C3, amended. The zscaler extraction applied to the base name of the scenario's key
  gives 1760305292. A cold scan at the clock reading 1760305500 with a delay of 60 s has
  the window from 1760305380 to 1760305440: whatever the store lists, every job it returns
  has its timestamp there, so none has the timestamp 1760305292.
\<close>

theorem C3_scenario:
  assumes "delayWindow s = 60 * 1000000000"
    and "Scan env s scenario_now 0 lastProcessedFile = Inr jobs"
  shows "ZscalerFormat_ParseTimestamp (path_Base scenario_key) = Inr 1760305292
       \<and> (\<forall>j \<in> set jobs. 1760305380 \<le> Timestamp j \<and> Timestamp j \<le> 1760305440
                         \<and> Timestamp j \<noteq> 1760305292)"
proof -
  have e: "scan_end s scenario_now = 1760305440"
    by (simp add: scan_end_def assms(1) scenario_now_def)
  from assms(2) have "in_window (scan_from s scenario_now 0) (scan_end s scenario_now) jobs"
    by (rule Scan_window)
  then have "in_window 1760305380 1760305440 jobs"
    by (simp add: scan_from_cold e)
  then have "\<forall>j \<in> set jobs. 1760305380 \<le> Timestamp j \<and> Timestamp j \<le> 1760305440
                         \<and> Timestamp j \<noteq> 1760305292"
    by (auto simp: in_window_def)
  then show ?thesis by (simp add: scenario_basename basename_timestamp)
qed

text \<open>
  The witness of C3: the bucket whose keys start with the timestamp 1760305400, scanned
  cold at the scenario's clock reading, gives one job, inside the window.
\<close>

theorem C3_scenario_witness:
  "delayWindow stamped_scanner = 60 * 1000000000
   \<and> Scan stamped_env stamped_scanner scenario_now 0 []
       = Inr [\<lparr>S3Key = stamped_key, Timestamp = 1760305400, Size = 4096\<rparr>]
   \<and> ZscalerFormat_ParseTimestamp (path_Base scenario_key) = Inr 1760305292
   \<and> (1760305380::int) \<le> 1760305400 \<and> (1760305400::int) \<le> 1760305440
   \<and> (1760305400::int) \<noteq> 1760305292"
  using C3_scenario [OF stamped_delay stamped_scan_cold] stamped_delay stamped_scan_cold
  by simp

section \<open>Batches\<close>

lemma batch_bytes_sum_snoc:
  "batch_bytes_sum (ls @ [l]) = batch_bytes_sum ls + (int (length l) + 1)"
  by (simp add: batch_bytes_sum_def)

lemma step_inv:
  assumes pos: "0 < batchLines hs" "0 < batchBytes hs"
    and inv: "batcher_inv hs M st" and ev: "line_within M ev"
  shows "batcher_inv hs M (batcher_step hs st ev)"
proof (cases ev)
  case (LineReceived line)
  let ?b = "addLine (currentBatch st) line"
  from ev LineReceived have len: "int (length line) \<le> M" by simp
  from inv have sent: "list_all (batch_ok hs M) (batchChan st)"
    and n: "int (length (Lines (currentBatch st))) < batchLines hs"
    and sz: "BatchSize (currentBatch st) < batchBytes hs"
    and sm: "BatchSize (currentBatch st) = batch_bytes_sum (Lines (currentBatch st))"
    by (simp_all add: batcher_inv_def)
  have b_sum: "BatchSize ?b = batch_bytes_sum (Lines ?b)"
    by (simp add: addLine_def sm batch_bytes_sum_snoc)
  show ?thesis
  proof (cases "batchFull hs ?b")
    case True
    have "batch_ok hs M ?b"
      using n sz len b_sum by (simp add: batch_ok_def addLine_def)
    with sent pos True LineReceived show ?thesis
      by (simp add: batcher_inv_def flushBatch_def addLine_def emptyBatch_def
          batch_bytes_sum_def Let_def)
  next
    case False
    then have "int (length (Lines ?b)) < batchLines hs" "BatchSize ?b < batchBytes hs"
      by (simp_all add: batchFull_def)
    with sent b_sum False LineReceived len show ?thesis
      by (simp add: batcher_inv_def Let_def)
  qed
next
  case LineChanClosed
  with inv pos show ?thesis
    by (auto simp: batcher_inv_def flushBatch_def emptyBatch_def batch_bytes_sum_def batch_ok_def)
next
  case FlushTick
  with inv pos show ?thesis
    by (auto simp: batcher_inv_def flushBatch_def emptyBatch_def batch_bytes_sum_def batch_ok_def)
next
  case MonitorTick
  with inv show ?thesis by simp
next
  case Done
  with inv pos show ?thesis
    by (auto simp: batcher_inv_def flushBatch_def emptyBatch_def batch_bytes_sum_def batch_ok_def)
qed

lemma loop_inv:
  assumes pos: "0 < batchLines hs" "0 < batchBytes hs"
  shows "batcher_inv hs M st \<Longrightarrow> list_all (line_within M) evs
           \<Longrightarrow> batcher_inv hs M (batcher_loop hs st evs)"
proof (induction evs arbitrary: st)
  case Nil
  then show ?case by simp
next
  case (Cons ev evs)
  show ?case
  proof (cases "returned st")
    case True
    with Cons.prems show ?thesis by simp
  next
    case False
    from Cons.prems have "batcher_inv hs M (batcher_step hs st ev)"
      by (intro step_inv pos) simp_all
    moreover from Cons.prems have "list_all (line_within M) evs" by simp
    ultimately have "batcher_inv hs M (batcher_loop hs (batcher_step hs st ev) evs)"
      by (rule Cons.IH)
    with False show ?thesis by simp
  qed
qed

lemma batcher_inv_holds:
  assumes "0 < batchLines hs" "0 < batchBytes hs" "list_all (line_within M) evs"
  shows "batcher_inv hs M (batcher hs evs)"
  unfolding batcher_def
  by (rule loop_inv [OF assms(1,2) _ assms(3)])
     (simp add: batcher_inv_def emptyBatch_def batch_bytes_sum_def assms(1,2))

text \<open>
  Claim C7. With positive bounds \<open>batchLines\<close> and \<open>batchBytes\<close> (what \<^verbatim>\<open>Validate\<close>
  demands) and lines of at most \<open>M\<close> bytes, every batch the batcher has sent to the
  batch queue holds at most \<open>batchLines\<close> lines, its size is the sum over its lines of the
  length plus one, that size is at most \<open>batchBytes + M\<close>, and it is not empty; a line
  that makes the current batch reach a bound is appended first and the batch holding it is
  sent; a tick of the flush timer on an empty current batch changes nothing.
\<close>

theorem C7_batches:
  assumes "0 < batchLines hs" and "0 < batchBytes hs"
    and "list_all (line_within M) evs"
    and "b \<in> set (batchChan (batcher hs evs))"
  shows "int (length (Lines b)) \<le> batchLines hs
       \<and> BatchSize b = sum_list (map (\<lambda>line. int (length line) + 1) (Lines b))
       \<and> BatchSize b \<le> batchBytes hs + M
       \<and> Lines b \<noteq> []
       \<and> (batchFull hs (addLine (currentBatch st) line) \<longrightarrow>
            batcher_step hs st (LineReceived line)
              = st\<lparr>currentBatch := emptyBatch,
                    batchChan := batchChan st @ [addLine (currentBatch st) line]\<rparr>)
       \<and> (Lines (currentBatch st) = [] \<longrightarrow> batcher_step hs st FlushTick = st)"
proof -
  from assms(1-3) have "batcher_inv hs M (batcher hs evs)" by (rule batcher_inv_holds)
  with assms(4) have "batch_ok hs M b"
    by (simp add: batcher_inv_def list_all_iff)
  then have 1: "int (length (Lines b)) \<le> batchLines hs
       \<and> BatchSize b = sum_list (map (\<lambda>line. int (length line) + 1) (Lines b))
       \<and> BatchSize b \<le> batchBytes hs + M \<and> Lines b \<noteq> []"
    by (simp add: batch_ok_def batch_bytes_sum_def)
  have 2: "batchFull hs (addLine (currentBatch st) line) \<longrightarrow>
            batcher_step hs st (LineReceived line)
              = st\<lparr>currentBatch := emptyBatch,
                    batchChan := batchChan st @ [addLine (currentBatch st) line]\<rparr>"
    by (simp add: flushBatch_def addLine_def Let_def)
  have 3: "Lines (currentBatch st) = [] \<longrightarrow> batcher_step hs st FlushTick = st"
    by (simp add: flushBatch_def)
  from 1 2 3 show ?thesis by blast
qed

lemma ten_lines_run:
  "batchChan (batcher bytes_sender ten_lines)
     = [first_batch, \<lparr>Lines = replicate 2 ''abcdefghijkl'', BatchSize = 26\<rparr>]"
  by code_simp

text \<open>
  The witness of C7: in scenario 3 the first batch is sent when the eighth line arrives
  (8 * 13 = 104 bytes), and a tick with nothing pending sends nothing.
\<close>

theorem C7_batches_witness:
  "0 < batchLines bytes_sender \<and> 0 < batchBytes bytes_sender
   \<and> list_all (line_within 12) ten_lines
   \<and> first_batch \<in> set (batchChan (batcher bytes_sender ten_lines))
   \<and> int (length (Lines first_batch)) \<le> 1000
   \<and> BatchSize first_batch = 104 \<and> BatchSize first_batch \<le> 100 + 12
   \<and> batchFull bytes_sender (addLine (currentBatch seven_state) ''abcdefghijkl'')
   \<and> batcher_step bytes_sender seven_state (LineReceived ''abcdefghijkl'')
       = idle_state
   \<and> Lines (currentBatch idle_state) = []
   \<and> batcher_step bytes_sender idle_state FlushTick = idle_state"
proof -
  have p: "0 < batchLines bytes_sender" "0 < batchBytes bytes_sender"
    by (simp_all add: bytes_sender_def)
  have l: "list_all (line_within 12) ten_lines" by code_simp
  have m: "first_batch \<in> set (batchChan (batcher bytes_sender ten_lines))"
    by (simp add: ten_lines_run)
  have f: "batchFull bytes_sender (addLine (currentBatch seven_state) ''abcdefghijkl'')"
    by (simp add: batchFull_def addLine_def seven_state_def bytes_sender_def)
  have e: "Lines (currentBatch idle_state) = []"
    by (simp add: idle_state_def emptyBatch_def)
  have s: "seven_state\<lparr>currentBatch := emptyBatch,
             batchChan := batchChan seven_state @ [addLine (currentBatch seven_state) ''abcdefghijkl'']\<rparr>
           = idle_state"
    by code_simp
  note t = C7_batches [OF p l m, of idle_state "''abcdefghijkl''"]
  note t' = C7_batches [OF p l m, of seven_state "''abcdefghijkl''"]
  from t t' p l m f e s show ?thesis
    by (simp add: bytes_sender_def first_batch_def)
qed

section \<open>Flushing the watermark\<close>

lemma Save_clean: "\<not> dirty m \<Longrightarrow> Save marshal w rename_ok m fs = (None, m, fs)"
  by (simp add: Save_def)

lemma Save_success:
  "dirty m \<Longrightarrow> marshal (state m) = Some data \<Longrightarrow>
   Save marshal WriteOk True m fs
     = (None, m\<lparr>dirty := False\<rparr>, (fs(filePath m @ ''.tmp'' := None))(filePath m \<mapsto> data))"
  by (simp add: Save_def Let_def)

lemma Save_frame:
  "state (Save_manager (Save marshal w rename_ok m fs)) = state m
   \<and> filePath (Save_manager (Save marshal w rename_ok m fs)) = filePath m
   \<and> dirty (Save_manager (Save marshal w rename_ok m fs))
       = (dirty m \<and> fst (Save marshal w rename_ok m fs) \<noteq> None)
   \<and> (fst (Save marshal w rename_ok m fs) \<noteq> None \<longrightarrow>
        Save_files (Save marshal w rename_ok m fs) (filePath m) = fs (filePath m))"
  by (auto simp: Save_def Let_def Save_manager_def Save_files_def
      split: option.splits write_outcome.splits)

lemma Save_retry:
  assumes "dirty m" "marshal (state m) = Some data" "fst (Save marshal w rename_ok m fs) \<noteq> None"
  shows "Save marshal WriteOk True (Save_manager (Save marshal w rename_ok m fs))
           (Save_files (Save marshal w rename_ok m fs))
         = (None, m\<lparr>dirty := False\<rparr>,
            ((Save_files (Save marshal w rename_ok m fs))(filePath m @ ''.tmp'' := None))
              (filePath m \<mapsto> data))"
  using assms
  by (auto simp: Save_def Let_def Save_manager_def Save_files_def
      split: option.splits write_outcome.splits if_splits)

lemma Redis_Save_clean: "\<not> rdirty m \<Longrightarrow> Redis_Save marshal set_ok m store = (None, m, store)"
  by (simp add: Redis_Save_def)

lemma Redis_Save_success:
  "rdirty m \<Longrightarrow> marshal (rstate m) = Some data \<Longrightarrow>
   Redis_Save marshal True m store
     = (None, m\<lparr>rdirty := False\<rparr>, store(keyPrefix m @ '':state'' \<mapsto> data))"
  by (simp add: Redis_Save_def Let_def)

lemma Redis_Save_frame:
  "rstate (Redis_Save_manager (Redis_Save marshal set_ok m store)) = rstate m
   \<and> rdirty (Redis_Save_manager (Redis_Save marshal set_ok m store))
       = (rdirty m \<and> fst (Redis_Save marshal set_ok m store) \<noteq> None)
   \<and> (fst (Redis_Save marshal set_ok m store) \<noteq> None \<longrightarrow>
        Redis_Save_store (Redis_Save marshal set_ok m store) = store)"
  by (auto simp: Redis_Save_def Let_def Redis_Save_manager_def Redis_Save_store_def
      split: option.splits)

lemma Redis_Save_retry:
  assumes "rdirty m" "marshal (rstate m) = Some data"
    "fst (Redis_Save marshal set_ok m store) \<noteq> None"
  shows "Redis_Save marshal True (Redis_Save_manager (Redis_Save marshal set_ok m store))
           (Redis_Save_store (Redis_Save marshal set_ok m store))
         = (None, m\<lparr>rdirty := False\<rparr>, store(keyPrefix m @ '':state'' \<mapsto> data))"
  using assms
  by (auto simp: Redis_Save_def Let_def Redis_Save_manager_def Redis_Save_store_def
      split: option.splits if_splits)

text \<open>
  Claim C9. \<^verbatim>\<open>Save\<close> on a state that is not dirty returns nil and changes neither the
  manager nor the files. On a dirty state whose serialization, write and rename succeed,
  the local-file backend returns nil, clears the flag, and leaves the serialized state at
  the path and nothing at the temporary path. Whatever happens, the state is kept and the
  flag afterwards is set exactly when it was set before and the call returned an error;
  when the call returns an error the file at the path is the one from before. After such
  an error a second call that succeeds persists the state and clears the flag. The same
  holds of the Redis backend, with the key \<^verbatim>\<open><prefix>:state\<close> in place of the file.
\<close>

theorem C9_save:
  "(\<not> dirty m \<longrightarrow> Save marshal w rename_ok m fs = (None, m, fs))
   \<and> (dirty m \<and> marshal (state m) = Some data \<longrightarrow>
        Save marshal WriteOk True m fs
          = (None, m\<lparr>dirty := False\<rparr>,
             (fs(filePath m @ ''.tmp'' := None))(filePath m \<mapsto> data)))
   \<and> state (Save_manager (Save marshal w rename_ok m fs)) = state m
   \<and> dirty (Save_manager (Save marshal w rename_ok m fs))
       = (dirty m \<and> fst (Save marshal w rename_ok m fs) \<noteq> None)
   \<and> (fst (Save marshal w rename_ok m fs) \<noteq> None \<longrightarrow>
        Save_files (Save marshal w rename_ok m fs) (filePath m) = fs (filePath m))
   \<and> (dirty m \<and> marshal (state m) = Some data \<and> fst (Save marshal w rename_ok m fs) \<noteq> None \<longrightarrow>
        Save marshal WriteOk True (Save_manager (Save marshal w rename_ok m fs))
            (Save_files (Save marshal w rename_ok m fs))
          = (None, m\<lparr>dirty := False\<rparr>,
             ((Save_files (Save marshal w rename_ok m fs))(filePath m @ ''.tmp'' := None))
               (filePath m \<mapsto> data)))
   \<and> (\<not> rdirty r \<longrightarrow> Redis_Save marshal set_ok r store = (None, r, store))
   \<and> (rdirty r \<and> marshal (rstate r) = Some data \<longrightarrow>
        Redis_Save marshal True r store
          = (None, r\<lparr>rdirty := False\<rparr>, store(keyPrefix r @ '':state'' \<mapsto> data)))
   \<and> rstate (Redis_Save_manager (Redis_Save marshal set_ok r store)) = rstate r
   \<and> rdirty (Redis_Save_manager (Redis_Save marshal set_ok r store))
       = (rdirty r \<and> fst (Redis_Save marshal set_ok r store) \<noteq> None)
   \<and> (fst (Redis_Save marshal set_ok r store) \<noteq> None \<longrightarrow>
        Redis_Save_store (Redis_Save marshal set_ok r store) = store)
   \<and> (rdirty r \<and> marshal (rstate r) = Some data
        \<and> fst (Redis_Save marshal set_ok r store) \<noteq> None \<longrightarrow>
        Redis_Save marshal True (Redis_Save_manager (Redis_Save marshal set_ok r store))
            (Redis_Save_store (Redis_Save marshal set_ok r store))
          = (None, r\<lparr>rdirty := False\<rparr>, store(keyPrefix r @ '':state'' \<mapsto> data)))"
  using Save_clean [of m marshal w rename_ok fs] Save_success [of m marshal data fs]
    Save_frame [of marshal w rename_ok m fs] Save_retry [of m marshal data w rename_ok fs]
    Redis_Save_clean [of r marshal set_ok store] Redis_Save_success [of r marshal data store]
    Redis_Save_frame [of marshal set_ok r store] Redis_Save_retry [of r marshal data set_ok store]
  by blast

text \<open>
  The witness of C9: a dirty manager whose write fails keeps the flag and leaves no file at
  the path; the next call writes the state there. A clean manager writes nothing. The
  same with a Redis command that fails.
\<close>

theorem C9_save_witness:
  "dirty dirty_manager
   \<and> text_marshal (state dirty_manager) = Some (state_text one_file_state)
   \<and> fst (Save text_marshal (WriteFailed None) True dirty_manager Map.empty) = Some ErrWriteFile
   \<and> dirty (Save_manager (Save text_marshal (WriteFailed None) True dirty_manager Map.empty))
   \<and> Save_files (Save text_marshal (WriteFailed None) True dirty_manager Map.empty) ''state.json''
       = None
   \<and> fst (Save text_marshal WriteOk True
            (Save_manager (Save text_marshal (WriteFailed None) True dirty_manager Map.empty))
            (Save_files (Save text_marshal (WriteFailed None) True dirty_manager Map.empty)))
       = None
   \<and> Save_files (Save text_marshal WriteOk True
            (Save_manager (Save text_marshal (WriteFailed None) True dirty_manager Map.empty))
            (Save_files (Save text_marshal (WriteFailed None) True dirty_manager Map.empty)))
         ''state.json''
       = Some (state_text one_file_state)
   \<and> \<not> dirty clean_manager
   \<and> Save text_marshal WriteOk True clean_manager Map.empty = (None, clean_manager, Map.empty)
   \<and> rdirty dirty_redis
   \<and> fst (Redis_Save text_marshal False dirty_redis Map.empty) = Some ErrRedisSet
   \<and> rdirty (Redis_Save_manager (Redis_Save text_marshal False dirty_redis Map.empty))
   \<and> Redis_Save text_marshal True
         (Redis_Save_manager (Redis_Save text_marshal False dirty_redis Map.empty))
         (Redis_Save_store (Redis_Save text_marshal False dirty_redis Map.empty))
       = (None, dirty_redis\<lparr>rdirty := False\<rparr>,
          [''s3-streamer:state'' \<mapsto> state_text one_file_state])
   \<and> \<not> rdirty clean_redis
   \<and> Redis_Save text_marshal True clean_redis Map.empty = (None, clean_redis, Map.empty)"
proof -
  have d: "dirty dirty_manager" "filePath dirty_manager = ''state.json''"
    "state dirty_manager = one_file_state"
    by (simp_all add: dirty_manager_def)
  have m: "text_marshal (state dirty_manager) = Some (state_text one_file_state)"
    by (simp add: text_marshal_def d)
  have e: "fst (Save text_marshal (WriteFailed None) True dirty_manager Map.empty)
             = Some ErrWriteFile"
    by (simp add: Save_def d text_marshal_def Let_def)
  have c: "\<not> dirty clean_manager" by (simp add: clean_manager_def)
  have rd: "rdirty dirty_redis" "keyPrefix dirty_redis = ''s3-streamer''"
    "rstate dirty_redis = one_file_state"
    by (simp_all add: dirty_redis_def)
  have rm: "text_marshal (rstate dirty_redis) = Some (state_text one_file_state)"
    by (simp add: text_marshal_def rd)
  have re: "fst (Redis_Save text_marshal False dirty_redis Map.empty) = Some ErrRedisSet"
    by (simp add: Redis_Save_def rd text_marshal_def Let_def)
  have rc: "\<not> rdirty clean_redis" by (simp add: clean_redis_def)
  note t1 = C9_save [of dirty_manager text_marshal "WriteFailed None" True Map.empty
      "state_text one_file_state" dirty_redis False Map.empty]
  note t2 = C9_save [of clean_manager text_marshal WriteOk True Map.empty
      "state_text one_file_state" clean_redis True Map.empty]
  have e': "fst (Save text_marshal (WriteFailed None) True dirty_manager Map.empty) \<noteq> None"
    by (simp add: e)
  have re': "fst (Redis_Save text_marshal False dirty_redis Map.empty) \<noteq> None"
    by (simp add: re)
  from t1 d(1) e'
  have 1: "dirty (Save_manager (Save text_marshal (WriteFailed None) True dirty_manager Map.empty))"
    by blast
  from t1 e'
  have 2: "Save_files (Save text_marshal (WriteFailed None) True dirty_manager Map.empty)
              (filePath dirty_manager) = Map.empty (filePath dirty_manager)"
    by blast
  from t1 d(1) m e'
  have 3: "Save text_marshal WriteOk True
            (Save_manager (Save text_marshal (WriteFailed None) True dirty_manager Map.empty))
            (Save_files (Save text_marshal (WriteFailed None) True dirty_manager Map.empty))
          = (None, dirty_manager\<lparr>dirty := False\<rparr>,
             ((Save_files (Save text_marshal (WriteFailed None) True dirty_manager Map.empty))
                (filePath dirty_manager @ ''.tmp'' := None))
                (filePath dirty_manager \<mapsto> state_text one_file_state))"
    by blast
  from t1 rd(1) re'
  have 4: "rdirty (Redis_Save_manager (Redis_Save text_marshal False dirty_redis Map.empty))"
    by blast
  from t1 rd(1) rm re'
  have 5: "Redis_Save text_marshal True
         (Redis_Save_manager (Redis_Save text_marshal False dirty_redis Map.empty))
         (Redis_Save_store (Redis_Save text_marshal False dirty_redis Map.empty))
       = (None, dirty_redis\<lparr>rdirty := False\<rparr>,
          [keyPrefix dirty_redis @ '':state'' \<mapsto> state_text one_file_state])"
    by blast
  from t2 c rc
  have 6: "Save text_marshal WriteOk True clean_manager Map.empty
             = (None, clean_manager, Map.empty)"
    and 7: "Redis_Save text_marshal True clean_redis Map.empty = (None, clean_redis, Map.empty)"
    by simp_all
  have tuple: "Save_files (x, y, z) = z" for x y z
    by (simp add: Save_files_def)
  from d m e 1 2 3 c 6 rd re 4 5 rc 7 show ?thesis
    by (simp add: tuple)
qed

section \<open>Validation normalizes the configuration\<close>

lemma format_defaults_fields:
  "TimestampFormat (format_defaults f)
     = (if TimestampFormat f = [] then ''unix'' else TimestampFormat f)"
  "ContentType (format_defaults f) = (if ContentType f = [] then ''text/plain'' else ContentType f)"
  "Name (format_defaults f) = Name f"
  "FilenamePattern (format_defaults f) = FilenamePattern f"
  "TimestampRegex (format_defaults f) = TimestampRegex f"
  "SkipHeaderLines (format_defaults f) = SkipHeaderLines f"
  "FieldSeparator (format_defaults f) = FieldSeparator f"
  by (simp_all add: format_defaults_def Let_def)

lemma validate_formats_LogFormats:
  "Processing_LogFormats (snd (validate_formats c)) = map format_defaults (Processing_LogFormats c)"
  by (simp add: validate_formats_def Let_def)

lemma validate_formats_DefaultFormat:
  "Processing_DefaultFormat c = [] \<Longrightarrow>
   Processing_DefaultFormat (snd (validate_formats c))
     = (if Processing_LogFormats c \<noteq> [] then ''auto''
        else if Processing_LogFormat c \<noteq> [] then Processing_LogFormat c else ''zscaler'')"
  by (simp add: validate_formats_def Let_def)

lemma validate_formats_Redis:
  "State_Redis (snd (validate_formats c)) = State_Redis c"
  by (simp add: validate_formats_def Let_def)

lemma validate_redis_fields:
  "Enabled r \<Longrightarrow> Host (snd (validate_redis r)) = (if Host r = [] then ''localhost'' else Host r)"
  "Enabled r \<Longrightarrow> Port (snd (validate_redis r)) = (if Port r = 0 then 6379 else Port r)"
  "Enabled r \<Longrightarrow> RedisKeyPrefix (snd (validate_redis r))
     = (if RedisKeyPrefix r = [] then ''s3-streamer'' else RedisKeyPrefix r)"
  by (simp_all add: validate_redis_def Let_def)

lemma Validate_config:
  "snd (Validate u c)
     = (snd (validate_formats c))\<lparr>State_Redis := snd (validate_redis (State_Redis c))\<rparr>"
  by (simp add: Validate_def Let_def validate_formats_Redis split: prod.splits)
     (metis snd_conv validate_formats_Redis)

text \<open>
  Claim C10. \<^verbatim>\<open>Validate\<close> changes the configuration it checks, whether it returns an
  error or not: in each configured format an empty timestamp_format becomes \<^verbatim>\<open>unix\<close>
  and an empty content_type becomes \<^verbatim>\<open>text/plain\<close>, the other fields staying as they
  are; an empty default_format becomes \<^verbatim>\<open>auto\<close> when formats are configured, the legacy
  log_format when only that is set, and \<^verbatim>\<open>zscaler\<close> when neither is; with Redis enabled,
  an empty host, a zero port and an empty key prefix become \<^verbatim>\<open>localhost\<close>, 6379 and
  \<^verbatim>\<open>s3-streamer\<close>.
\<close>

theorem C10_validate:
  "length (Processing_LogFormats (snd (Validate u c))) = length (Processing_LogFormats c)
   \<and> (\<forall>i < length (Processing_LogFormats c).
         TimestampFormat (Processing_LogFormats (snd (Validate u c)) ! i)
           = (if TimestampFormat (Processing_LogFormats c ! i) = [] then ''unix''
              else TimestampFormat (Processing_LogFormats c ! i))
         \<and> ContentType (Processing_LogFormats (snd (Validate u c)) ! i)
           = (if ContentType (Processing_LogFormats c ! i) = [] then ''text/plain''
              else ContentType (Processing_LogFormats c ! i))
         \<and> Name (Processing_LogFormats (snd (Validate u c)) ! i)
           = Name (Processing_LogFormats c ! i)
         \<and> FilenamePattern (Processing_LogFormats (snd (Validate u c)) ! i)
           = FilenamePattern (Processing_LogFormats c ! i)
         \<and> TimestampRegex (Processing_LogFormats (snd (Validate u c)) ! i)
           = TimestampRegex (Processing_LogFormats c ! i)
         \<and> SkipHeaderLines (Processing_LogFormats (snd (Validate u c)) ! i)
           = SkipHeaderLines (Processing_LogFormats c ! i)
         \<and> FieldSeparator (Processing_LogFormats (snd (Validate u c)) ! i)
           = FieldSeparator (Processing_LogFormats c ! i))
   \<and> (Processing_DefaultFormat c = [] \<longrightarrow>
        Processing_DefaultFormat (snd (Validate u c))
          = (if Processing_LogFormats c \<noteq> [] then ''auto''
             else if Processing_LogFormat c \<noteq> [] then Processing_LogFormat c
             else ''zscaler''))
   \<and> (Enabled (State_Redis c) \<longrightarrow>
        Host (State_Redis (snd (Validate u c)))
          = (if Host (State_Redis c) = [] then ''localhost'' else Host (State_Redis c))
        \<and> Port (State_Redis (snd (Validate u c)))
          = (if Port (State_Redis c) = 0 then 6379 else Port (State_Redis c))
        \<and> RedisKeyPrefix (State_Redis (snd (Validate u c)))
          = (if RedisKeyPrefix (State_Redis c) = [] then ''s3-streamer''
             else RedisKeyPrefix (State_Redis c)))"
proof -
  have f: "Processing_LogFormats (snd (Validate u c))
             = map format_defaults (Processing_LogFormats c)"
    by (simp add: Validate_config validate_formats_LogFormats)
  have d: "Processing_DefaultFormat (snd (Validate u c))
             = Processing_DefaultFormat (snd (validate_formats c))"
    by (simp add: Validate_config)
  have r: "State_Redis (snd (Validate u c)) = snd (validate_redis (State_Redis c))"
    by (simp add: Validate_config)
  show ?thesis
    unfolding f d r
    by (simp add: format_defaults_fields validate_formats_DefaultFormat validate_redis_fields)
qed

lemma Validate_positive:
  assumes "fst (Validate u c) = None"
  shows "0 < HTTP_BatchLines (snd (Validate u c)) \<and> 0 < HTTP_BatchBytes (snd (Validate u c))"
proof -
  from assms have "errs_before_formats u c = []"
    by (auto simp: Validate_def Let_def split: prod.splits if_splits)
  then have "0 < HTTP_BatchLines c \<and> 0 < HTTP_BatchBytes c"
    by (auto simp: errs_before_formats_def split: if_splits)
  moreover have "HTTP_BatchLines (snd (validate_formats c)) = HTTP_BatchLines c"
    "HTTP_BatchBytes (snd (validate_formats c)) = HTTP_BatchBytes c"
    by (simp_all add: validate_formats_def Let_def)
  ultimately show ?thesis by (simp add: Validate_config)
qed

lemma formats_config_valid: "fst (Validate scheme_of formats_config) = None"
  by code_simp

lemma formats_config_fields:
  "Processing_LogFormats formats_config = [bare_format]"
  "Processing_DefaultFormat formats_config = []"
  "Processing_LogFormat formats_config = []"
  "Enabled (State_Redis formats_config)"
  "Host (State_Redis formats_config) = []"
  "Port (State_Redis formats_config) = 0"
  "RedisKeyPrefix (State_Redis formats_config) = []"
  by (simp_all add: formats_config_def base_config_def)

text \<open>
  The witness of C10: a configuration that passes validation and comes out changed in each
  of the ways listed, and the other two cases of the default format.
\<close>

theorem C10_validate_witness:
  "fst (Validate scheme_of formats_config) = None
   \<and> (0::nat) < length (Processing_LogFormats formats_config)
   \<and> Processing_DefaultFormat formats_config = []
   \<and> Enabled (State_Redis formats_config)
   \<and> TimestampFormat (Processing_LogFormats formats_config ! 0) = []
   \<and> ContentType (Processing_LogFormats formats_config ! 0) = []
   \<and> TimestampFormat (Processing_LogFormats (snd (Validate scheme_of formats_config)) ! 0)
       = ''unix''
   \<and> ContentType (Processing_LogFormats (snd (Validate scheme_of formats_config)) ! 0)
       = ''text/plain''
   \<and> Processing_DefaultFormat (snd (Validate scheme_of formats_config)) = ''auto''
   \<and> Host (State_Redis (snd (Validate scheme_of formats_config))) = ''localhost''
   \<and> Port (State_Redis (snd (Validate scheme_of formats_config))) = 6379
   \<and> RedisKeyPrefix (State_Redis (snd (Validate scheme_of formats_config))) = ''s3-streamer''
   \<and> Processing_DefaultFormat legacy_config = []
   \<and> Processing_DefaultFormat (snd (Validate scheme_of legacy_config)) = ''cisco_umbrella''
   \<and> Processing_DefaultFormat base_config = []
   \<and> Processing_DefaultFormat (snd (Validate scheme_of base_config)) = ''zscaler''"
proof -
  have l: "Processing_DefaultFormat legacy_config = []" "Processing_LogFormats legacy_config = []"
    "Processing_LogFormat legacy_config = ''cisco_umbrella''"
    by (simp_all add: legacy_config_def base_config_def)
  have b: "Processing_DefaultFormat base_config = []" "Processing_LogFormats base_config = []"
    "Processing_LogFormat base_config = []"
    by (simp_all add: base_config_def)
  have bf: "TimestampFormat bare_format = []" "ContentType bare_format = []"
    by (simp_all add: bare_format_def)
  from C10_validate [of scheme_of formats_config] C10_validate [of scheme_of legacy_config]
    C10_validate [of scheme_of base_config] formats_config_valid
  show ?thesis
    by (simp add: formats_config_fields l b bf)
qed

section \<open>Content type of a request\<close>

text \<open>
  Claim C1 fails on the code: \<^verbatim>\<open>sendBatch\<close> sets the header to the constant
  \<^verbatim>\<open>application/x-ndjson\<close>, whatever the batch and the endpoint are, and the sender has
  no format to ask. The content type of the cisco_umbrella format is \<^verbatim>\<open>text/plain\<close>, so
  a batch of that format goes out under another content type than its own.
\<close>

theorem C1_content_type:
  "map_of (Header (sendBatch_request batch endpoint)) ''Content-Type''
     = Some ''application/x-ndjson''
   \<and> GetContentType CiscoUmbrellaFormat = ''text/plain''
   \<and> map_of (Header (sendBatch_request batch endpoint)) ''Content-Type''
       \<noteq> Some (GetContentType CiscoUmbrellaFormat)"
  by (simp add: sendBatch_request_def CiscoUmbrellaFormat_GetContentType_def)

section \<open>Download workers\<close>

lemma process_lines_outcome:
  "snd (process_lines lb (Some format) sent n b isFirst lines) \<noteq> Panic
   \<and> ((\<exists>k. snd (process_lines lb (Some format) sent n b isFirst lines) = Ok k)
        \<longleftrightarrow> lines_ok lb format isFirst lines)"
  by (induction lines arbitrary: sent n b isFirst)
     (auto split: sum.splits option.splits)

lemma processFile_frame:
  "stateManager (fst (processFile lb get hp job)) = stateManager hp
   \<and> filesProcessed (fst (processFile lb get hp job)) = filesProcessed hp
   \<and> errors (fst (processFile lb get hp job)) = errors hp
   \<and> poolFormat (fst (processFile lb get hp job)) = poolFormat hp"
  by (auto simp: processFile_def split: s3_body.splits prod.splits outcome.splits)

lemma processFile_outcome:
  assumes "poolFormat hp = Some format"
  shows "snd (processFile lb get hp job) \<noteq> Panic
       \<and> (snd (processFile lb get hp job) = Ok () \<longleftrightarrow> job_ok lb get format job)"
proof (cases "get (S3Key job)")
  case GetFailed
  then show ?thesis by (simp add: processFile_def job_ok_def)
next
  case NotGzip
  then show ?thesis by (simp add: processFile_def job_ok_def)
next
  case (Scanned lines scanErr)
  from process_lines_outcome [of lb format "lineChan hp" 0 0 True lines]
  show ?thesis
    using Scanned assms
    by (auto simp: processFile_def job_ok_def split: prod.splits outcome.splits)
qed

lemma worker_counts:
  assumes "poolFormat hp = Some format"
  shows "snd (worker lb get hp jobs)
       \<and> stateManager (fst (worker lb get hp jobs)) = stateManager hp
       \<and> filesProcessed (fst (worker lb get hp jobs))
           = filesProcessed hp + of_nat (length (filter (job_ok lb get format) jobs))
       \<and> errors (fst (worker lb get hp jobs))
           = errors hp + of_nat (length (filter (\<lambda>job. \<not> job_ok lb get format job) jobs))"
  using assms
proof (induction jobs arbitrary: hp)
  case Nil
  then show ?case by simp
next
  case (Cons job jobs)
  obtain hp1 res where p: "processFile lb get hp job = (hp1, res)"
    by (cases "processFile lb get hp job") auto
  from processFile_frame [of lb get hp job] p
  have fr: "stateManager hp1 = stateManager hp" "filesProcessed hp1 = filesProcessed hp"
    "errors hp1 = errors hp" "poolFormat hp1 = Some format"
    using Cons.prems by simp_all
  from processFile_outcome [OF Cons.prems, of lb get job] p
  have oc: "res \<noteq> Panic" "res = Ok () \<longleftrightarrow> job_ok lb get format job"
    by simp_all
  show ?case
  proof (cases res)
    case (Ok u)
    with oc have ok: "job_ok lb get format job" by simp
    from Cons.IH [of "hp1\<lparr>filesProcessed := filesProcessed hp1 + 1\<rparr>"] fr ok p Ok
    show ?thesis by simp
  next
    case (Failed err)
    with oc have nok: "\<not> job_ok lb get format job" by simp
    from Cons.IH [of "hp1\<lparr>errors := errors hp1 + 1\<rparr>"] fr nok p Failed
    show ?thesis by simp
  next
    case Panic
    with oc show ?thesis by simp
  qed
qed

lemma process_lines_sent:
  "fst (process_lines lb (Some format) sent n b isFirst lines)
     = sent @ forwarded lb format isFirst lines"
  by (induction lines arbitrary: sent n b isFirst)
     (auto split: sum.splits option.splits)

lemma process_lines_bytes:
  "snd (process_lines lb (Some format) sent n b isFirst lines) = Ok k
   \<Longrightarrow> k = b + sum_list (map length (forwarded lb format isFirst lines))"
proof (induction lines arbitrary: sent n b isFirst)
  case Nil
  then show ?case by simp
next
  case (Cons line rest)
  show ?case
  proof (cases "ProcessContent lb format line isFirst")
    case (Inl err)
    with Cons.prems show ?thesis by simp
  next
    case (Inr r)
    show ?thesis
    proof (cases r)
      case None
      from Cons.IH [of sent "Suc n" b False] Cons.prems Inr None
      show ?thesis by simp
    next
      case (Some processedLine)
      from Cons.IH [of "sent @ [processedLine]" "Suc n" "b + length processedLine" False]
        Cons.prems Inr Some
      show ?thesis by simp
    qed
  qed
qed

lemma processFile_lines:
  assumes "poolFormat hp = Some format"
  shows "lineChan (fst (processFile lb get hp job)) = lineChan hp @ job_lines lb get format job"
proof (cases "get (S3Key job)")
  case GetFailed
  then show ?thesis by (simp add: processFile_def job_lines_def)
next
  case NotGzip
  then show ?thesis by (simp add: processFile_def job_lines_def)
next
  case (Scanned lines scanErr)
  from process_lines_sent [of lb format "lineChan hp" 0 0 True lines]
  show ?thesis
    using Scanned assms
    by (auto simp: processFile_def job_lines_def split: prod.splits outcome.splits)
qed

lemma processFile_bytes:
  assumes "poolFormat hp = Some format"
  shows "bytesProcessed (fst (processFile lb get hp job))
       = (if job_ok lb get format job
          then bytesProcessed hp + of_nat (job_bytes lb get format job)
          else bytesProcessed hp)"
proof (cases "get (S3Key job)")
  case GetFailed
  then show ?thesis by (simp add: processFile_def job_ok_def)
next
  case NotGzip
  then show ?thesis by (simp add: processFile_def job_ok_def)
next
  case (Scanned lines scanErr)
  obtain sent res where p: "process_lines lb (Some format) (lineChan hp) 0 0 True lines = (sent, res)"
    by (cases "process_lines lb (Some format) (lineChan hp) 0 0 True lines") auto
  from process_lines_outcome [of lb format "lineChan hp" 0 0 True lines] p
  have oc: "res \<noteq> Panic" "(\<exists>k. res = Ok k) \<longleftrightarrow> lines_ok lb format True lines"
    by simp_all
  show ?thesis
  proof (cases res)
    case (Ok k)
    from process_lines_bytes [of lb format "lineChan hp" 0 0 True lines k] p Ok
    have k: "k = sum_list (map length (forwarded lb format True lines))" by simp
    from oc Ok have "lines_ok lb format True lines" by blast
    then show ?thesis
      using Scanned assms p Ok k
      by (simp add: processFile_def job_ok_def job_bytes_def job_lines_def)
  next
    case (Failed err)
    with oc have "\<not> lines_ok lb format True lines" by auto
    then show ?thesis
      using Scanned assms p Failed
      by (simp add: processFile_def job_ok_def)
  next
    case Panic
    with oc show ?thesis by simp
  qed
qed

lemma worker_bytes:
  assumes "poolFormat hp = Some format"
  shows "bytesProcessed (fst (worker lb get hp jobs))
           = bytesProcessed hp
             + of_nat (sum_list (map (job_bytes lb get format) (filter (job_ok lb get format) jobs)))
       \<and> lineChan (fst (worker lb get hp jobs))
           = lineChan hp @ concat (map (job_lines lb get format) jobs)"
  using assms
proof (induction jobs arbitrary: hp)
  case Nil
  then show ?case by simp
next
  case (Cons job jobs)
  obtain hp1 res where p: "processFile lb get hp job = (hp1, res)"
    by (cases "processFile lb get hp job") auto
  from processFile_frame [of lb get hp job] p
  have fr: "poolFormat hp1 = Some format"
    using Cons.prems by simp
  from processFile_bytes [OF Cons.prems, of lb get job] processFile_lines [OF Cons.prems, of lb get job] p
  have by1: "bytesProcessed hp1
       = (if job_ok lb get format job
          then bytesProcessed hp + of_nat (job_bytes lb get format job)
          else bytesProcessed hp)"
    and ln1: "lineChan hp1 = lineChan hp @ job_lines lb get format job"
    by simp_all
  from processFile_outcome [OF Cons.prems, of lb get job] p
  have oc: "res \<noteq> Panic" "res = Ok () \<longleftrightarrow> job_ok lb get format job"
    by simp_all
  show ?case
  proof (cases res)
    case (Ok u)
    with oc have ok: "job_ok lb get format job" by simp
    from Cons.IH [of "hp1\<lparr>filesProcessed := filesProcessed hp1 + 1\<rparr>"] fr ok p Ok by1 ln1
    show ?thesis by simp
  next
    case (Failed err)
    with oc have nok: "\<not> job_ok lb get format job" by simp
    from Cons.IH [of "hp1\<lparr>errors := errors hp1 + 1\<rparr>"] fr nok p Failed by1 ln1
    show ?thesis by simp
  next
    case Panic
    with oc show ?thesis by simp
  qed
qed

text \<open>
  Claim C5, amended. For a pool with a format, neither \<^verbatim>\<open>processFile\<close> nor the worker
  loop touches the watermark store, on success or on failure (the source leaves the update
  to its main loop), and the worker loop goes through all its jobs. For one job the worker
  adds one to \<^verbatim>\<open>filesProcessed\<close> and the bytes of the job's forwarded lines to
  \<^verbatim>\<open>bytesProcessed\<close> when the job succeeds, and adds one to \<^verbatim>\<open>errors\<close> and nothing to
  \<^verbatim>\<open>bytesProcessed\<close> when it fails; the lines it forwards are put on the sender's channel
  after those already there. Over a list of jobs the file and error counters grow by the
  number of jobs that succeed and that fail, the byte counter by the bytes of the jobs
  that succeed, where whether a job succeeds, and what it forwards, depends on that job's
  own object only.
\<close>

theorem C5_worker:
  assumes "poolFormat hp = Some format"
  shows "stateManager (fst (processFile lb get hp job)) = stateManager hp
       \<and> stateManager (fst (worker lb get hp jobs)) = stateManager hp
       \<and> snd (worker lb get hp jobs)
       \<and> filesProcessed (fst (worker lb get hp [job]))
           = (if job_ok lb get format job then filesProcessed hp + 1 else filesProcessed hp)
       \<and> errors (fst (worker lb get hp [job]))
           = (if job_ok lb get format job then errors hp else errors hp + 1)
       \<and> bytesProcessed (fst (worker lb get hp [job]))
           = (if job_ok lb get format job
              then bytesProcessed hp + of_nat (job_bytes lb get format job)
              else bytesProcessed hp)
       \<and> lineChan (fst (worker lb get hp [job])) = lineChan hp @ job_lines lb get format job
       \<and> filesProcessed (fst (worker lb get hp jobs))
           = filesProcessed hp + of_nat (length (filter (job_ok lb get format) jobs))
       \<and> errors (fst (worker lb get hp jobs))
           = errors hp + of_nat (length (filter (\<lambda>job. \<not> job_ok lb get format job) jobs))
       \<and> bytesProcessed (fst (worker lb get hp jobs))
           = bytesProcessed hp
             + of_nat (sum_list (map (job_bytes lb get format) (filter (job_ok lb get format) jobs)))
       \<and> lineChan (fst (worker lb get hp jobs))
           = lineChan hp @ concat (map (job_lines lb get format) jobs)"
  using worker_counts [OF assms, of lb get jobs] worker_counts [OF assms, of lb get "[job]"]
    worker_bytes [OF assms, of lb get jobs] worker_bytes [OF assms, of lb get "[job]"]
    processFile_frame [of lb get hp job]
  by simp

text \<open>
  Claim C5, as stated, fails. The job of scenario 2 succeeds, its three lines are
  forwarded and the file counter is 1, and the watermark is as before: timestamp 0, no
  file, no bytes, not dirty, where the job's timestamp is 1736937000.
\<close>

theorem C5_counterexample:
  "job_ok lib_failing cisco_get CiscoUmbrellaFormat cisco_job
   \<and> Timestamp cisco_job = 1736937000
   \<and> lineChan (fst (worker lib_failing cisco_get cisco_pool [cisco_job])) = [''A'', ''B'', ''C'']
   \<and> filesProcessed (fst (worker lib_failing cisco_get cisco_pool [cisco_job])) = 1
   \<and> LastProcessedTimestamp (state (stateManager (fst (worker lib_failing cisco_get cisco_pool [cisco_job])))) = 0
   \<and> LastProcessedFile (state (stateManager (fst (worker lib_failing cisco_get cisco_pool [cisco_job])))) = []
   \<and> TotalBytesProcessed (state (stateManager (fst (worker lib_failing cisco_get cisco_pool [cisco_job])))) = 0
   \<and> \<not> dirty (stateManager (fst (worker lib_failing cisco_get cisco_pool [cisco_job])))"
  by code_simp

text \<open>The same with every library.\<close>

lemma cisco_lines_every_lib:
  "process_lines lb (Some CiscoUmbrellaFormat) [] 0 0 True cisco_lines = ([''A'', ''B'', ''C''], Ok 3)"
proof -
  have t: "TrimSpace ''A'' \<noteq> []" "TrimSpace ''B'' \<noteq> []" "TrimSpace ''C'' \<noteq> []"
    by code_simp+
  show ?thesis
    by (simp add: cisco_lines_def CiscoUmbrellaFormat_ProcessContent_def t)
qed

lemma cisco_job_every_lib:
  "worker lb cisco_get cisco_pool [cisco_job]
     = (cisco_pool\<lparr>lineChan := [''A'', ''B'', ''C''], bytesProcessed := 3, filesProcessed := 1\<rparr>,
        True)"
  by (simp add: processFile_def cisco_get_def cisco_job_def cisco_pool_def cisco_lines_every_lib)

text \<open>
  The witness of C5: a job whose download fails, then the job of scenario 2. One error,
  one file, three bytes in three lines, and the watermark store as it was.
\<close>

theorem C5_worker_witness:
  "poolFormat cisco_pool = Some CiscoUmbrellaFormat
   \<and> \<not> job_ok lib_failing cisco_get CiscoUmbrellaFormat missing_job
   \<and> job_ok lib_failing cisco_get CiscoUmbrellaFormat cisco_job
   \<and> job_lines lib_failing cisco_get CiscoUmbrellaFormat cisco_job = [''A'', ''B'', ''C'']
   \<and> stateManager (fst (worker lib_failing cisco_get cisco_pool [missing_job, cisco_job]))
       = stateManager cisco_pool
   \<and> snd (worker lib_failing cisco_get cisco_pool [missing_job, cisco_job])
   \<and> filesProcessed (fst (worker lib_failing cisco_get cisco_pool [missing_job, cisco_job])) = 1
   \<and> errors (fst (worker lib_failing cisco_get cisco_pool [missing_job, cisco_job])) = 1
   \<and> bytesProcessed (fst (worker lib_failing cisco_get cisco_pool [missing_job, cisco_job])) = 3
   \<and> lineChan (fst (worker lib_failing cisco_get cisco_pool [missing_job, cisco_job]))
       = [''A'', ''B'', ''C'']"
proof -
  have f: "poolFormat cisco_pool = Some CiscoUmbrellaFormat"
    "filesProcessed cisco_pool = 0" "errors cisco_pool = 0" "bytesProcessed cisco_pool = 0"
    "lineChan cisco_pool = []"
    by (simp_all add: cisco_pool_def)
  have j: "\<not> job_ok lib_failing cisco_get CiscoUmbrellaFormat missing_job"
    "job_ok lib_failing cisco_get CiscoUmbrellaFormat cisco_job"
    "job_lines lib_failing cisco_get CiscoUmbrellaFormat missing_job = []"
    "job_lines lib_failing cisco_get CiscoUmbrellaFormat cisco_job = [''A'', ''B'', ''C'']"
    "job_bytes lib_failing cisco_get CiscoUmbrellaFormat cisco_job = 3"
    by code_simp+
  from C5_worker [OF f(1), of lib_failing cisco_get missing_job "[missing_job, cisco_job]"] f j
  show ?thesis by simp
qed

end
